theory Spec2Isabelle
  imports Main "HOL-Library.Sublist"
begin

section \<open>Python strings\<close>

text \<open>
  A Python \<open>str\<close> is modelled as a \<open>string\<close>: a list of characters with code points
  0..255 (Latin-1).  The character classes below are the ones of Python 3 restricted to
  that range.  \<open>s.endswith(t)\<close> is \<open>suffix t s\<close>, \<open>s.startswith(t)\<close> is \<open>prefix t s\<close>
  and \<open>t in s\<close> is \<open>sublist t s\<close>.
\<close>

definition isspace :: "char \<Rightarrow> bool" where
  "isspace c = (let n = (of_char c :: nat) in
     (9 \<le> n \<and> n \<le> 13) \<or> (28 \<le> n \<and> n \<le> 32) \<or> n = 133 \<or> n = 160)"

definition isalnum :: "char \<Rightarrow> bool" where
  "isalnum c = (let n = (of_char c :: nat) in
     (48 \<le> n \<and> n \<le> 57) \<or> (65 \<le> n \<and> n \<le> 90) \<or> (97 \<le> n \<and> n \<le> 122) \<or>
     n = 170 \<or> n = 178 \<or> n = 179 \<or> n = 181 \<or> n = 185 \<or> n = 186 \<or>
     (188 \<le> n \<and> n \<le> 190) \<or> (192 \<le> n \<and> n \<le> 214) \<or> (216 \<le> n \<and> n \<le> 246) \<or>
     (248 \<le> n \<and> n \<le> 255))"

definition lower_char :: "char \<Rightarrow> char" where
  "lower_char c = (let n = (of_char c :: nat) in
     if (65 \<le> n \<and> n \<le> 90) \<or> (192 \<le> n \<and> n \<le> 222 \<and> n \<noteq> 215)
     then char_of (n + 32) else c)"

definition lower :: "string \<Rightarrow> string" where
  "lower s = map lower_char s"

definition lstrip_chars :: "char list \<Rightarrow> string \<Rightarrow> string" where
  "lstrip_chars cs s = dropWhile (\<lambda>c. c \<in> set cs) s"

definition rstrip_chars :: "char list \<Rightarrow> string \<Rightarrow> string" where
  "rstrip_chars cs s = rev (dropWhile (\<lambda>c. c \<in> set cs) (rev s))"

definition strip_chars :: "char list \<Rightarrow> string \<Rightarrow> string" where
  "strip_chars cs s = rstrip_chars cs (lstrip_chars cs s)"

definition strip :: "string \<Rightarrow> string" where
  "strip s = rev (dropWhile isspace (rev (dropWhile isspace s)))"

section \<open>The environment of a run\<close>

text \<open>
  What the two scripts read and change outside their own variables: the files on disk
  (path to content; \<open>os.path.exists\<close> is membership in the domain, \<open>os.path.getsize\<close> the
  length of the content), the lines still to be read by \<open>input()\<close>, the requests sent so far
  (newest first), the number of body bytes read from responses, and the arguments of the
  calls of \<open>time.sleep\<close> (newest first).  Printing, logging and the progress bar are left
  out; opening a file for writing always succeeds.
\<close>

datatype error = EOFError | ValueError | HTTPError nat | RequestException string

text \<open>
  A GET request is its URL and the offset \<open>k\<close> of a \<open>Range: bytes=k-\<close> header, if it has
  one (the fixed identity headers are not modelled).
\<close>

record request =
  req_url :: string
  req_range :: "nat option"

record world =
  files :: "string \<rightharpoonup> string"
  stdin :: "string list"
  requests :: "request list"
  received :: nat
  sleeps :: "nat list"

definition exists :: "world \<Rightarrow> string \<Rightarrow> bool" where
  "exists w p = (files w p \<noteq> None)"

definition getsize :: "world \<Rightarrow> string \<Rightarrow> nat" where
  "getsize w p = (case files w p of None \<Rightarrow> 0 | Some c \<Rightarrow> length c)"

section \<open>dados\_tse\_baixa.py: the existing-file policy\<close>

text \<open>
  The \<open>while True\<close> loop of \<open>handle_existing_file\<close>: one line is read per round, an invalid
  answer asks again.  \<open>input()\<close> on exhausted input raises \<open>EOFError\<close>.
\<close>

fun ask_choice :: "string list \<Rightarrow> (error + string \<times> bool \<times> bool) \<times> string list" where
  "ask_choice [] = (Inl EOFError, [])"
| "ask_choice (line # rest) =
     (let choice = lower (strip line) in
      if choice = ''s'' then (Inr (''skip'', False, False), rest)
      else if choice = ''o'' then (Inr (''overwrite'', False, False), rest)
      else if choice = ''sa'' then (Inr (''skip'', True, False), rest)
      else if choice = ''oa'' then (Inr (''overwrite'', False, True), rest)
      else ask_choice rest)"

definition handle_existing_file ::
  "world \<Rightarrow> string \<Rightarrow> bool \<Rightarrow> bool \<Rightarrow> (error + string \<times> bool \<times> bool) \<times> world" where
  "handle_existing_file w filepath global_skip_all global_overwrite_all =
     (if \<not> exists w filepath then (Inr (''overwrite'', global_skip_all, global_overwrite_all), w)
      else if global_skip_all then (Inr (''skip'', global_skip_all, global_overwrite_all), w)
      else if global_overwrite_all
        then (Inr (''overwrite'', global_skip_all, global_overwrite_all), w)
      else (case ask_choice (stdin w) of (r, rest) \<Rightarrow> (r, w\<lparr>stdin := rest\<rparr>)))"

section \<open>The HTTP transport\<close>

text \<open>
  A response as the code reads it: the status, the \<open>content-length\<close> header (absent, not an
  integer, so that \<open>int()\<close> raises \<open>ValueError\<close>, or an integer), the \<open>Content-Disposition\<close>
  header (empty when absent), the chunks \<open>iter_content\<close> yields and, if the stream breaks,
  the error raised after them.  A transport answers a request given everything sent so far
  (the request itself first): it raises or responds.  Any deterministic server or test
  double is such a function.
\<close>

datatype content_length = NoHeader | BadHeader | Length int

record response =
  status_code :: nat
  content_length :: content_length
  content_disposition :: string
  chunks :: "string list"
  stream_error :: "string option"

datatype reply = Raises string | Responds response

type_synonym transport = "request list \<Rightarrow> reply"

definition get :: "transport \<Rightarrow> request \<Rightarrow> world \<Rightarrow> reply \<times> world" where
  "get T r w = (T (r # requests w), w\<lparr>requests := r # requests w\<rparr>)"

text \<open>\<open>response.raise_for_status()\<close> raises for a status from 400 to 599.\<close>

definition is_error_status :: "nat \<Rightarrow> bool" where
  "is_error_status st = (400 \<le> st \<and> st < 600)"

text \<open>
  \<open>open(path, mode)\<close> followed by the loop writing every non-empty chunk: mode \<open>ab\<close>
  (\<open>appending\<close>) keeps the old content, \<open>wb\<close> truncates.  When the stream breaks the
  bytes written so far stay in the file and the error is returned.
\<close>

definition write_chunks :: "bool \<Rightarrow> response \<Rightarrow> string \<Rightarrow> world \<Rightarrow> error option \<times> world" where
  "write_chunks appending resp path w =
     (let old = (if appending then (case files w path of None \<Rightarrow> [] | Some c \<Rightarrow> c) else []);
          body = concat (filter (\<lambda>chunk. chunk \<noteq> []) (chunks resp));
          w' = w\<lparr>files := (files w)(path \<mapsto> old @ body),
                 received := received w + length (concat (chunks resp))\<rparr>
      in (case stream_error resp of None \<Rightarrow> (None, w')
          | Some e \<Rightarrow> (Some (RequestException e), w')))"

section \<open>dados\_tse\_baixa.py: download with resume and retry\<close>

text \<open>
  The part of \<open>download_file\<close> after the response is chosen; \<open>resume_header\<close> says whether
  the \<open>Range\<close> header is still set.  The result is the pair the source returns, with the
  error itself in place of its text.
\<close>

definition receive :: "bool \<Rightarrow> response \<Rightarrow> string \<Rightarrow> world \<Rightarrow> (bool \<times> error option) \<times> world" where
  "receive resume_header resp output_path w =
     (if is_error_status (status_code resp) then ((False, Some (HTTPError (status_code resp))), w)
      else if content_length resp = BadHeader then ((False, Some ValueError), w)
      else (case write_chunks (resume_header \<and> exists w output_path) resp output_path w of
              (None, w') \<Rightarrow> ((True, None), w')
            | (Some e, w') \<Rightarrow> ((False, Some e), w')))"

definition download_file ::
  "transport \<Rightarrow> string \<Rightarrow> string \<Rightarrow> world \<Rightarrow> (bool \<times> error option) \<times> world" where
  "download_file T url output_path w =
     (let resume_header = exists w output_path;
          range = (if resume_header then Some (getsize w output_path) else None)
      in case get T \<lparr>req_url = url, req_range = range\<rparr> w of
           (Raises e, w1) \<Rightarrow> ((False, Some (RequestException e)), w1)
         | (Responds resp, w1) \<Rightarrow>
             if status_code resp = 416 then
               (case get T \<lparr>req_url = url, req_range = None\<rparr> w1 of
                  (Raises e, w2) \<Rightarrow> ((False, Some (RequestException e)), w2)
                | (Responds resp2, w2) \<Rightarrow> receive False resp2 output_path w2)
             else receive resume_header resp output_path w1)"

text \<open>
  A resource is the dictionary built by \<open>get_resources_from_year\<close> (keys \<open>name\<close>, \<open>title\<close>,
  \<open>url\<close>, \<open>format\<close>, \<open>size\<close>); a tally holds the variables of \<open>main\<close> that the loop over
  the resources updates.
\<close>

record resource =
  res_name :: string
  res_title :: string
  res_url :: string
  res_format :: string
  res_size :: "string option"

record tally =
  total_downloaded :: nat
  total_skipped :: nat
  total_failed :: nat
  failed_downloads :: "(nat \<times> string \<times> string \<times> error option) list"
  global_skip_all :: bool
  global_overwrite_all :: bool

text \<open>
  \<open>for attempt in range(1, max_retries + 1)\<close>, as a recursion over the attempts still to
  come: a success leaves the loop, a failure before the last attempt goes on, the last
  failure is counted and recorded.
\<close>

fun attempts ::
  "transport \<Rightarrow> nat \<Rightarrow> nat \<Rightarrow> resource \<Rightarrow> string \<Rightarrow> nat list \<Rightarrow> tally \<times> world \<Rightarrow> tally \<times> world" where
  "attempts T max_retries year res output_path [] (t, w) = (t, w)"
| "attempts T max_retries year res output_path (attempt # rest) (t, w) =
     (let w1 = (if attempt > 1 then w\<lparr>sleeps := 2 ^ attempt # sleeps w\<rparr> else w)
      in case download_file T (res_url res) output_path w1 of
           ((success, error_msg), w2) \<Rightarrow>
             if success then (t\<lparr>total_downloaded := total_downloaded t + 1\<rparr>, w2)
             else if attempt < max_retries
               then attempts T max_retries year res output_path rest (t, w2)
             else attempts T max_retries year res output_path rest
                    (t\<lparr>total_failed := total_failed t + 1,
                       failed_downloads :=
                         failed_downloads t @ [(year, res_name res, res_url res, error_msg)]\<rparr>, w2))"

definition download_with_retry ::
  "transport \<Rightarrow> nat \<Rightarrow> nat \<Rightarrow> resource \<Rightarrow> string \<Rightarrow> tally \<times> world \<Rightarrow> tally \<times> world" where
  "download_with_retry T max_retries year res output_path tw =
     attempts T max_retries year res output_path [1 ..< max_retries + 1] tw"

text \<open>\<open>os.path\<close> on POSIX.\<close>

definition basename :: "string \<Rightarrow> string" where
  "basename p = rev (takeWhile (\<lambda>c. c \<noteq> CHR ''/'') (rev p))"

definition dirname :: "string \<Rightarrow> string" where
  "dirname p =
     (let head = rev (dropWhile (\<lambda>c. c \<noteq> CHR ''/'') (rev p))
      in if head \<noteq> [] \<and> \<not> list_all (\<lambda>c. c = CHR ''/'') head then rstrip_chars ''/'' head else head)"

definition path_join :: "string \<Rightarrow> string \<Rightarrow> string" where
  "path_join a b =
     (if prefix ''/'' b then b
      else if a = [] \<or> suffix ''/'' a then a @ b
      else a @ ''/'' @ b)"

text \<open>
  The body of the loop over the resources of one year in \<open>main\<close>.  An \<open>EOFError\<close> of the
  prompt is not caught there and ends the run.
\<close>

definition process_resource ::
  "transport \<Rightarrow> string \<Rightarrow> nat \<Rightarrow> resource \<Rightarrow> tally \<times> world \<Rightarrow> error + tally \<times> world" where
  "process_resource T year_dir year res tw =
     (case tw of (t, w) \<Rightarrow>
        let output_path = path_join year_dir (res_name res)
        in case handle_existing_file w output_path (global_skip_all t) (global_overwrite_all t) of
             (Inl e, w1) \<Rightarrow> Inl e
           | (Inr (action, skip_all, overwrite_all), w1) \<Rightarrow>
               let t1 = t\<lparr>global_skip_all := skip_all, global_overwrite_all := overwrite_all\<rparr>
               in if action = ''skip''
                  then Inr (t1\<lparr>total_skipped := total_skipped t1 + 1\<rparr>, w1)
                  else Inr (download_with_retry T 3 year res output_path (t1, w1)))"

fun process_resources ::
  "transport \<Rightarrow> string \<Rightarrow> nat \<Rightarrow> resource list \<Rightarrow> tally \<times> world \<Rightarrow> error + tally \<times> world" where
  "process_resources T year_dir year [] tw = Inr tw"
| "process_resources T year_dir year (res # rest) tw =
     (case process_resource T year_dir year res tw of
        Inl e \<Rightarrow> Inl e
      | Inr tw' \<Rightarrow> process_resources T year_dir year rest tw')"

section \<open>dados\_tse\_baixa.py: the resources of a year page\<close>

text \<open>
  The functions of \<open>urllib.parse\<close> are parameters of the model: \<open>urlparse\<close> gives the
  components the code reads (\<open>path\<close>, \<open>query\<close>), \<open>urljoin\<close> joins a base and a reference.
  In \<open>get_resources_from_year\<close> a library call that raises inside the loop body only drops
  the item (the handler at the end of the body goes on with the next one); the body is
  modelled for calls that return.
\<close>

record parsed_url =
  url_path :: string
  url_query :: string

definition BASE_URL :: string where
  "BASE_URL = ''https://dadosabertos.tse.jus.br''"

definition extensions :: "string list" where
  "extensions = [''.zip'', ''.csv'', ''.pdf'', ''.txt'', ''.xlsx'', ''.xls'', ''.jpg'', ''.jpeg'']"

text \<open>\<open>s.endswith((e1, e2, ...))\<close> with a tuple of suffixes.\<close>

definition endswith_any :: "string list \<Rightarrow> string \<Rightarrow> bool" where
  "endswith_any sufs s = list_ex (\<lambda>e. suffix e s) sufs"

text \<open>
  What BeautifulSoup finds in one resource item (an \<open>li\<close> whose class contains
  \<open>resource\<close>): the text of the first \<open>h3\<close>, \<open>h4\<close> or \<open>a\<close> whose class contains \<open>heading\<close>, the
  \<open>a\<close> elements in document order (with \<open>.string\<close>, \<open>get_text(strip=True)\<close> and \<open>href\<close>) and
  the text nodes in document order.
\<close>

record anchor =
  a_string :: "string option"
  a_text :: string
  a_href :: "string option"

record res_item =
  item_heading :: "string option"
  item_anchors :: "anchor list"
  item_strings :: "string list"

text \<open>The \<open>if\<close>/\<open>elif\<close> chain that sets \<open>file_format\<close>.\<close>

definition file_format :: "(string \<Rightarrow> parsed_url) \<Rightarrow> string \<Rightarrow> string" where
  "file_format urlparse download_url =
     (if download_url \<noteq> [] then
        (let path = lower (url_path (urlparse download_url)) in
         if suffix ''.zip'' path then ''ZIP''
         else if suffix ''.csv'' path then ''CSV''
         else if suffix ''.pdf'' path then ''PDF''
         else if suffix ''.txt'' path then ''TXT''
         else if endswith_any [''.xlsx'', ''.xls''] path then ''XLSX''
         else if endswith_any [''.jpg'', ''.jpeg''] path then ''JPEG''
         else ''unknown'')
      else ''unknown'')"

text \<open>
  The step that follows a link to a resource page.  \<open>fetch_hrefs u\<close> is the page at \<open>u\<close> as
  the code uses it: the \<open>href\<close> values of its \<open>a\<close> elements in document order, or \<open>None\<close>
  when the request or \<open>raise_for_status\<close> raises (the bare \<open>except\<close> then keeps the URL).
\<close>

definition direct_url ::
  "(string \<Rightarrow> string \<Rightarrow> string) \<Rightarrow> (string \<Rightarrow> string list option) \<Rightarrow> string \<Rightarrow> string" where
  "direct_url urljoin fetch_hrefs download_url =
     (if download_url \<noteq> [] \<and> \<not> endswith_any extensions download_url then
        (if prefix ''/'' download_url \<or> sublist ''dataset'' download_url then
           (case fetch_hrefs (urljoin BASE_URL download_url) of
              None \<Rightarrow> download_url
            | Some hrefs \<Rightarrow>
                (case List.find (\<lambda>x. x \<noteq> [] \<and> (endswith_any extensions x
                           \<or> sublist ''download'' (lower x) \<or> sublist ''cdn.tse.jus.br'' x)) hrefs of
                   None \<Rightarrow> download_url
                 | Some href \<Rightarrow> if prefix ''/'' href then urljoin BASE_URL href else href))
         else download_url)
      else download_url)"

text \<open>
  \<open>re.sub(r'[-\s]+', '-', s)\<close>: every run of hyphens and white space becomes one hyphen
  (\<open>in_run\<close> says that the previous character belonged to a run).
\<close>

fun hyphenate :: "bool \<Rightarrow> string \<Rightarrow> string" where
  "hyphenate in_run [] = []"
| "hyphenate in_run (c # s) =
     (if c = CHR ''-'' \<or> isspace c
      then (if in_run then hyphenate True s else CHR ''-'' # hyphenate True s)
      else c # hyphenate False s)"

definition safe_title :: "string \<Rightarrow> string" where
  "safe_title t =
     hyphenate False
       (strip (filter (\<lambda>c. isalnum c \<or> c = CHR ''_'' \<or> isspace c \<or> c = CHR ''-'') t))"

text \<open>
  The body of the loop over the resource items: \<open>None\<close> is a \<open>continue\<close>, \<open>Some\<close> the
  dictionary appended to \<open>resources\<close>.
\<close>

definition process_item ::
  "(string \<Rightarrow> parsed_url) \<Rightarrow> (string \<Rightarrow> string \<Rightarrow> string) \<Rightarrow> (string \<Rightarrow> string list option)
     \<Rightarrow> res_item \<Rightarrow> resource option" where
  "process_item urlparse urljoin fetch_hrefs res_item =
     (case (case item_heading res_item of
              Some t \<Rightarrow> Some t
            | None \<Rightarrow> map_option a_text (List.find (\<lambda>a. a_href a \<noteq> None) (item_anchors res_item))) of
        None \<Rightarrow> None
      | Some title \<Rightarrow>
          (case (case List.find (\<lambda>a. case a_string a of None \<Rightarrow> False
                          | Some x \<Rightarrow> x \<noteq> [] \<and> sublist ''ir para recurso'' (lower x))
                        (item_anchors res_item) of
                   Some a \<Rightarrow> Some a
                 | None \<Rightarrow>
                     List.find (\<lambda>a. case a_href a of None \<Rightarrow> False
                          | Some href \<Rightarrow> prefix ''http'' href
                              \<and> (sublist ''cdn.tse.jus.br'' href \<or> sublist ''download'' (lower href)))
                        (item_anchors res_item)) of
             None \<Rightarrow> None
           | Some ir_recurso_link \<Rightarrow>
               (let href = (case a_href ir_recurso_link of None \<Rightarrow> [] | Some h \<Rightarrow> h);
                    followed = direct_url urljoin fetch_hrefs href;
                    download_url = rstrip_chars [CHR ''.'', CHR '' '', CHR 0x0A, CHR 0x0D, CHR 0x09]
                                     followed;
                    fmt = file_format urlparse download_url;
                    file_size = map_option strip
                      (List.find (\<lambda>x. x \<noteq> [] \<and> (sublist ''mb'' (lower x) \<or> sublist ''kb'' (lower x)
                                    \<or> sublist ''gb'' (lower x))) (item_strings res_item));
                    base = basename (url_path (urlparse download_url));
                    filename = (if base = [] \<or> base = ''/''
                                then safe_title title @ ''.'' @ lower fmt else base)
                in Some \<lparr>res_name = filename, res_title = title, res_url = download_url,
                         res_format = fmt, res_size = file_size\<rparr>)))"

text \<open>
  \<open>get_resources_from_year\<close>: \<open>fetch_year u\<close> is the year page as the code uses it, or \<open>None\<close>
  when the request raises.
\<close>

record year_page =
  has_dados_section :: bool
  resource_items :: "res_item list"

definition get_resources_from_year ::
  "(string \<Rightarrow> parsed_url) \<Rightarrow> (string \<Rightarrow> string \<Rightarrow> string) \<Rightarrow> (string \<Rightarrow> year_page option)
     \<Rightarrow> (string \<Rightarrow> string list option) \<Rightarrow> string \<Rightarrow> resource list" where
  "get_resources_from_year urlparse urljoin fetch_year fetch_hrefs year_url =
     (case fetch_year year_url of
        None \<Rightarrow> []
      | Some page \<Rightarrow>
          if \<not> has_dados_section page then []
          else List.map_filter (process_item urlparse urljoin fetch_hrefs) (resource_items page))"

section \<open>diarios\_ceara\_scraper.py: download with retry\<close>

text \<open>
  The search \<open>re.search(r'filename[^;=\n]*=((['"]).*?\2|[^;\n]*)', s, re.IGNORECASE)\<close>
  and its group 1.  A match starts at the first \<open>filename\<close> (in any case) after which
  the next of \<open>;\<close>, \<open>=\<close> and newline is \<open>=\<close>.  Group 1 is then a quoted string, when the
  text opens with a quote that is closed on the same line, and otherwise the text up to
  the next \<open>;\<close> or newline.
\<close>

definition quoted_or_token :: "string \<Rightarrow> string" where
  "quoted_or_token v =
     (case v of [] \<Rightarrow> []
      | q # v' \<Rightarrow>
          if (q = CHR 0x27 \<or> q = CHR 0x22) \<and> q \<in> set v'
             \<and> CHR 0x0A \<notin> set (takeWhile (\<lambda>c. c \<noteq> q) v')
          then q # takeWhile (\<lambda>c. c \<noteq> q) v' @ [q]
          else takeWhile (\<lambda>c. c \<noteq> CHR '';'' \<and> c \<noteq> CHR 0x0A) v)"

definition filename_match_at :: "string \<Rightarrow> string option" where
  "filename_match_at s =
     (if lower (take 8 s) = ''filename'' then
        (case dropWhile (\<lambda>c. c \<noteq> CHR '';'' \<and> c \<noteq> CHR ''='' \<and> c \<noteq> CHR 0x0A) (drop 8 s) of
           [] \<Rightarrow> None
         | c # v \<Rightarrow> if c = CHR ''='' then Some (quoted_or_token v) else None)
      else None)"

fun filename_search :: "string \<Rightarrow> string option" where
  "filename_search [] = None"
| "filename_search (c # s) =
     (case filename_match_at (c # s) of Some g \<Rightarrow> Some g | None \<Rightarrow> filename_search s)"

text \<open>
  The file name of a \<open>Content-Disposition\<close> header, as both \<open>download_file\<close> and
  \<open>get_filename_from_content_disposition\<close> compute it: group 1 without surrounding quotes,
  unquoted.  \<open>urllib.parse.unquote\<close> is a parameter of the model.
\<close>

definition header_filename :: "(string \<Rightarrow> string) \<Rightarrow> string \<Rightarrow> string option" where
  "header_filename unquote cd =
     (if cd = [] then None
      else (case filename_search cd of None \<Rightarrow> None
            | Some g \<Rightarrow> Some (unquote (strip_chars [CHR 0x22, CHR 0x27] g))))"

definition generic_names :: "string list" where
  "generic_names = [''visualizar.pdf'', ''baixar.pdf'', ''download.pdf'', ''documento.pdf'']"

text \<open>The path \<open>download_file\<close> goes on with once it has seen the response headers.\<close>

definition choose_filepath :: "(string \<Rightarrow> string) \<Rightarrow> string \<Rightarrow> string \<Rightarrow> string" where
  "choose_filepath unquote filepath cd =
     (case header_filename unquote cd of
        None \<Rightarrow> filepath
      | Some actual_filename \<Rightarrow>
          if actual_filename \<noteq> [] \<and> suffix ''.pdf'' (lower actual_filename) then
            (let current_basename = lower (basename filepath)
             in if current_basename \<in> set generic_names
                then path_join (dirname filepath) actual_filename else filepath)
          else filepath)"

text \<open>
  \<open>should_overwrite_file\<close>: the remote size only appears in the prompt.  \<open>EOFError\<close> is not
  caught there (only \<open>KeyboardInterrupt\<close>, which is not modelled).
\<close>

fun ask_overwrite :: "string list \<Rightarrow> (error + bool) \<times> string list" where
  "ask_overwrite [] = (Inl EOFError, [])"
| "ask_overwrite (line # rest) =
     (let choice = lower (strip line) in
      if choice = ''s'' \<or> choice = ''skip'' then (Inr False, rest)
      else if choice = ''o'' \<or> choice = ''overwrite'' then (Inr True, rest)
      else ask_overwrite rest)"

definition should_overwrite_file :: "world \<Rightarrow> string \<Rightarrow> (error + bool) \<times> world" where
  "should_overwrite_file w filepath =
     (if \<not> exists w filepath then (Inr True, w)
      else (case ask_overwrite (stdin w) of (r, rest) \<Rightarrow> (r, w\<lparr>stdin := rest\<rparr>)))"

text \<open>
  The \<open>try\<close> block of one attempt.  \<open>Inr status\<close> is a \<open>return (True, status)\<close>; \<open>Inl p\<close> is
  an exception caught by one of the two handlers, with \<open>p\<close> the value of the variable
  \<open>filepath\<close> at that point (the next attempt goes on with it).
\<close>

definition try_download ::
  "(string \<Rightarrow> string) \<Rightarrow> transport \<Rightarrow> string \<Rightarrow> string \<Rightarrow> world \<Rightarrow> (string + string) \<times> world" where
  "try_download unquote T url filepath w =
     (case get T \<lparr>req_url = url, req_range = None\<rparr> w of
        (Raises e, w1) \<Rightarrow> (Inl filepath, w1)
      | (Responds resp, w1) \<Rightarrow>
          if is_error_status (status_code resp) then (Inl filepath, w1)
          else
            let filepath' = choose_filepath unquote filepath (content_disposition resp)
            in if content_length resp = BadHeader then (Inl filepath', w1)
               else
                 (case (if exists w1 filepath' then should_overwrite_file w1 filepath'
                        else (Inr True, w1)) of
                    (Inl e, w2) \<Rightarrow> (Inl filepath', w2)
                  | (Inr False, w2) \<Rightarrow> (Inr ''skipped'', w2)
                  | (Inr True, w2) \<Rightarrow>
                      (case write_chunks False resp filepath' w2 of
                         (None, w3) \<Rightarrow> (Inr ''downloaded'', w3)
                       | (Some e, w3) \<Rightarrow> (Inl filepath', w3))))"

text \<open>
  \<open>for attempt in range(max_retries)\<close>.  Both handlers go on to the next attempt while
  \<open>attempt < max_retries - 1\<close> (written \<open>attempt + 1 < max_retries\<close> on naturals) and
  return \<open>(False, 'failed')\<close> otherwise; nothing waits between attempts.
\<close>

fun attempts_doe ::
  "(string \<Rightarrow> string) \<Rightarrow> transport \<Rightarrow> string \<Rightarrow> nat \<Rightarrow> string \<Rightarrow> nat list \<Rightarrow> world
     \<Rightarrow> (bool \<times> string) \<times> world" where
  "attempts_doe unquote T url max_retries filepath [] w = ((False, ''failed''), w)"
| "attempts_doe unquote T url max_retries filepath (attempt # rest) w =
     (case try_download unquote T url filepath w of
        (Inr status, w') \<Rightarrow> ((True, status), w')
      | (Inl filepath', w') \<Rightarrow>
          if attempt + 1 < max_retries
          then attempts_doe unquote T url max_retries filepath' rest w'
          else ((False, ''failed''), w'))"

definition download_file_doe ::
  "(string \<Rightarrow> string) \<Rightarrow> transport \<Rightarrow> string \<Rightarrow> string \<Rightarrow> nat \<Rightarrow> world
     \<Rightarrow> (bool \<times> string) \<times> world" where
  "download_file_doe unquote T url filepath max_retries w =
     attempts_doe unquote T url max_retries filepath [0 ..< max_retries] w"

section \<open>diarios\_ceara\_scraper.py: links and file names\<close>

text \<open>
  In this program \<open>urlparse\<close> is a parameter that may raise: \<open>None\<close> stands for the
  \<open>ValueError\<close> of \<open>urllib.parse\<close> (a host with one bracket, for instance).  Inside
  \<open>extract_filename_from_url\<close> the error is caught; in the body of \<open>test_shortcut_url\<close> it
  reaches the handler at the end of the function.
\<close>

text \<open>
  \<open>re.search(r'([^/]+\.pdf)', path, re.IGNORECASE)\<close>: the leftmost match starts a path
  segment, namely the first segment in which \<open>.pdf\<close> (in any case) occurs after at least one
  character, and being greedy it runs to the end of the last such occurrence in that segment.
\<close>

fun split_on :: "char \<Rightarrow> string \<Rightarrow> string list" where
  "split_on sep [] = [[]]"
| "split_on sep (c # s) =
     (if c = sep then [] # split_on sep s
      else (case split_on sep s of [] \<Rightarrow> [[c]] | seg # segs \<Rightarrow> (c # seg) # segs))"

definition pdf_in_segment :: "string \<Rightarrow> string option" where
  "pdf_in_segment seg =
     (case filter (\<lambda>j. lower (take 4 (drop j seg)) = ''.pdf'') [1 ..< length seg] of
        [] \<Rightarrow> None
      | j # js \<Rightarrow> Some (take (last (j # js) + 4) seg))"

definition pdf_search :: "string \<Rightarrow> string option" where
  "pdf_search path =
     (case List.map_filter pdf_in_segment (split_on CHR ''/'' path) of
        [] \<Rightarrow> None
      | m # _ \<Rightarrow> Some m)"

definition filename_params :: "string list" where
  "filename_params = [''arquivo'', ''file'', ''filename'', ''nome'', ''documento'']"

text \<open>
  The loop over the query parameters in \<open>extract_filename_from_url\<close>.  \<open>Some r\<close> is a
  \<open>return r\<close> (an \<open>IndexError\<close> is caught by the handler, which returns \<open>None\<close>); \<open>None\<close> means
  that the loop ended without returning.  \<open>parse_qs\<close> yields a dictionary of lists.
\<close>

fun query_filename ::
  "(string \<Rightarrow> string) \<Rightarrow> (string \<rightharpoonup> string list) \<Rightarrow> string list \<Rightarrow> string option option" where
  "query_filename unquote query_params [] = None"
| "query_filename unquote query_params (param # rest) =
     (case query_params param of
        None \<Rightarrow> query_filename unquote query_params rest
      | Some [] \<Rightarrow> Some None
      | Some (filename # _) \<Rightarrow>
          if filename \<noteq> [] \<and> suffix ''.pdf'' (lower filename) then Some (Some (unquote filename))
          else query_filename unquote query_params rest)"

definition extract_filename_from_url ::
  "(string \<Rightarrow> parsed_url option) \<Rightarrow> (string \<Rightarrow> (string \<rightharpoonup> string list)) \<Rightarrow> (string \<Rightarrow> string)
     \<Rightarrow> string \<Rightarrow> string option" where
  "extract_filename_from_url urlparse parse_qs unquote u =
     (case urlparse u of
        None \<Rightarrow> None
      | Some parsed \<Rightarrow>
          (case query_filename unquote (parse_qs (url_query parsed)) filename_params of
             Some r \<Rightarrow> r
           | None \<Rightarrow>
               (let path = url_path parsed in
                if path \<noteq> [] then
                  (case pdf_search path of
                     Some m \<Rightarrow> Some (unquote m)
                   | None \<Rightarrow>
                       (let b = basename path in
                        if b \<noteq> [] \<and> suffix ''.pdf'' (lower b) then Some (unquote b) else None))
                else None)))"

text \<open>
  \<open>get_filename_from_content_disposition\<close>: \<open>head u\<close> is the \<open>Content-Disposition\<close> header of
  the answer to the HEAD request (empty when absent), or \<open>None\<close> when the request raises.
\<close>

definition get_filename_from_content_disposition ::
  "(string \<Rightarrow> string option) \<Rightarrow> (string \<Rightarrow> string) \<Rightarrow> string \<Rightarrow> string option" where
  "get_filename_from_content_disposition head unquote u =
     (case head u of None \<Rightarrow> None | Some cd \<Rightarrow> header_filename unquote cd)"

definition DOE_HOST :: string where
  "DOE_HOST = ''http://pesquisa.doe.seplag.ce.gov.br''"

definition full_url :: "string \<Rightarrow> string" where
  "full_url href =
     (if prefix ''/'' href then DOE_HOST @ href
      else if prefix ''http'' href then href
      else DOE_HOST @ ''/doepesquisa/'' @ href)"

definition placeholder_names :: "string list" where
  "placeholder_names = [''visualizar.pdf'', ''visualizar'', ''baixar.pdf'', ''download.pdf'']"

definition action_words :: "string list" where
  "action_words = [''visualizar'', ''baixar'', ''download'', ''ver'']"

text \<open>The test \<open>not filename or filename.lower() in [...]\<close> before the methods 2, 3 and 4.\<close>

definition needs_name :: "string option \<Rightarrow> bool" where
  "needs_name filename =
     (case filename of None \<Rightarrow> True | Some f \<Rightarrow> f = [] \<or> lower f \<in> set placeholder_names)"

text \<open>
  A table cell as the code reads it: its text (\<open>get_text(strip=True)\<close>) and, if it has an
  \<open>a\<close> with \<open>href\<close>, the \<open>href\<close> and text of the first one.
\<close>

record cell =
  cell_text :: string
  cell_link :: "(string \<times> string) option"

text \<open>Method 2: the first cell of the row whose text looks like a file name.\<close>

definition name_from_cells :: "cell list \<Rightarrow> string option" where
  "name_from_cells cells =
     (case List.find (\<lambda>t. t \<noteq> [] \<and> lower t \<notin> set action_words
                        \<and> (suffix ''.pdf'' (lower t) \<or> length t > 5)) (map cell_text cells) of
        None \<Rightarrow> None
      | Some t \<Rightarrow> Some (if suffix ''.pdf'' t then t else t @ ''.pdf''))"

text \<open>
  \<open>os.path.basename(urlparse(full_url).path) or 'documento.pdf'\<close>, the last resort of both
  loops; here \<open>urlparse\<close> is called outside any inner \<open>try\<close>.
\<close>

definition url_basename :: "(string \<Rightarrow> parsed_url option) \<Rightarrow> string \<Rightarrow> error + string" where
  "url_basename urlparse u =
     (case urlparse u of
        None \<Rightarrow> Inl ValueError
      | Some parsed \<Rightarrow>
          (let b = basename (url_path parsed) in Inr (if b \<noteq> [] then b else ''documento.pdf'')))"

text \<open>The four methods in turn, then the extension and \<open>unquote\<close>.\<close>

definition link_filename ::
  "(string \<Rightarrow> parsed_url option) \<Rightarrow> (string \<Rightarrow> (string \<rightharpoonup> string list)) \<Rightarrow> (string \<Rightarrow> string)
     \<Rightarrow> (string \<Rightarrow> string option) \<Rightarrow> cell list \<Rightarrow> string \<Rightarrow> string \<Rightarrow> error + string" where
  "link_filename urlparse parse_qs unquote head cells href link_text =
     (let u = full_url href;
          m1 = extract_filename_from_url urlparse parse_qs unquote u;
          m2 = (if needs_name m1
                then (case name_from_cells cells of None \<Rightarrow> m1 | Some t \<Rightarrow> Some t) else m1);
          m3 = (if needs_name m2 then get_filename_from_content_disposition head unquote u else m2);
          fallback =
            (if link_text \<noteq> [] \<and> lower link_text \<notin> set action_words then Inr link_text
             else url_basename urlparse u);
          m4 = (case m3 of None \<Rightarrow> fallback
                | Some f \<Rightarrow> if needs_name (Some f) then fallback else Inr f)
      in case m4 of
           Inl e \<Rightarrow> Inl e
         | Inr f \<Rightarrow> Inr (unquote (if suffix ''.pdf'' f then f else f @ ''.pdf'')))"

definition href_wanted :: "string \<Rightarrow> bool" where
  "href_wanted href =
     (sublist ''.pdf'' (lower href) \<or> sublist ''download'' (lower href) \<or> sublist ''baixar'' (lower href))"

text \<open>
  A \<open>for\<close> loop that appends to \<open>links\<close>: the results of the rounds in order, or the first
  exception, which ends the loop.
\<close>

fun gather :: "('a \<Rightarrow> error + 'b list) \<Rightarrow> 'a list \<Rightarrow> error + 'b list" where
  "gather f [] = Inr []"
| "gather f (x # xs) =
     (case f x of
        Inl e \<Rightarrow> Inl e
      | Inr ys \<Rightarrow> (case gather f xs of Inl e \<Rightarrow> Inl e | Inr zs \<Rightarrow> Inr (ys @ zs)))"

definition cell_links ::
  "(string \<Rightarrow> parsed_url option) \<Rightarrow> (string \<Rightarrow> (string \<rightharpoonup> string list)) \<Rightarrow> (string \<Rightarrow> string)
     \<Rightarrow> (string \<Rightarrow> string option) \<Rightarrow> cell list \<Rightarrow> cell \<Rightarrow> error + (string \<times> string) list" where
  "cell_links urlparse parse_qs unquote head cells c =
     (case cell_link c of
        None \<Rightarrow> Inr []
      | Some (href, link_text) \<Rightarrow>
          if \<not> href_wanted href then Inr []
          else (case link_filename urlparse parse_qs unquote head cells href link_text of
                  Inl e \<Rightarrow> Inl e
                | Inr filename \<Rightarrow> Inr [(filename, full_url href)]))"

definition row_links ::
  "(string \<Rightarrow> parsed_url option) \<Rightarrow> (string \<Rightarrow> (string \<rightharpoonup> string list)) \<Rightarrow> (string \<Rightarrow> string)
     \<Rightarrow> (string \<Rightarrow> string option) \<Rightarrow> cell list \<Rightarrow> error + (string \<times> string) list" where
  "row_links urlparse parse_qs unquote head cells =
     gather (cell_links urlparse parse_qs unquote head cells) cells"

text \<open>The second loop, over the links of the page that end in \<open>.pdf\<close>.\<close>

definition direct_link ::
  "(string \<Rightarrow> parsed_url option) \<Rightarrow> (string \<Rightarrow> (string \<rightharpoonup> string list)) \<Rightarrow> (string \<Rightarrow> string)
     \<Rightarrow> string \<Rightarrow> error + (string \<times> string) list" where
  "direct_link urlparse parse_qs unquote href =
     (let u = full_url href;
          m = extract_filename_from_url urlparse parse_qs unquote u
      in case (case m of
                 None \<Rightarrow> url_basename urlparse u
               | Some f \<Rightarrow> if f = [] then url_basename urlparse u else Inr f) of
           Inl e \<Rightarrow> Inl e
         | Inr filename \<Rightarrow>
             (let unquoted = unquote filename
              in Inr [(if suffix ''.pdf'' unquoted then unquoted else unquoted @ ''.pdf'', u)]))"

text \<open>
  A page as \<open>test_shortcut_url\<close> reads it: its tables, each a list of rows, each a list of
  cells; the \<open>href\<close> values of all its \<open>a\<close> elements; its text.  \<open>fetch u\<close> is the page at \<open>u\<close>, or
  \<open>None\<close> when the request or \<open>raise_for_status\<close> raises.
\<close>

record page =
  tables :: "cell list list list"
  all_links :: "string list"
  page_text :: string

definition BASE_URL_SHORTCUT :: string where
  "BASE_URL_SHORTCUT = ''http://pesquisa.doe.seplag.ce.gov.br/doepesquisa/sead.do?page=ultimasDetalhe&cmd=10&action=Cadernos&data=''"

definition empty_markers :: "string list" where
  "empty_markers =
     [''n'' @ [CHR 0xE3] @ ''o h'' @ [CHR 0xE1],
      ''sem dados'',
      ''nenhuma publica'' @ [CHR 0xE7, CHR 0xE3] @ ''o'',
      ''n'' @ [CHR 0xE3] @ ''o existem'']"

text \<open>
  The links collected by the two loops of \<open>test_shortcut_url\<close>, or the exception that
  stopped them.
\<close>

definition page_links ::
  "(string \<Rightarrow> parsed_url option) \<Rightarrow> (string \<Rightarrow> (string \<rightharpoonup> string list)) \<Rightarrow> (string \<Rightarrow> string)
     \<Rightarrow> (string \<Rightarrow> string option) \<Rightarrow> page \<Rightarrow> error + (string \<times> string) list" where
  "page_links urlparse parse_qs unquote head soup =
     (case gather (gather (row_links urlparse parse_qs unquote head)) (tables soup) of
        Inl e \<Rightarrow> Inl e
      | Inr table_links \<Rightarrow>
          if table_links = []
          then gather (direct_link urlparse parse_qs unquote)
                 (filter (\<lambda>href. suffix ''.pdf'' (lower href)) (all_links soup))
          else Inr table_links)"

text \<open>
  \<open>test_shortcut_url\<close>: both handlers at the end of the function return \<open>(False, [])\<close>, for
  a failed request as for an exception in the loops; the test for the marker phrases comes
  after the loops.
\<close>

definition test_shortcut_url ::
  "(string \<Rightarrow> parsed_url option) \<Rightarrow> (string \<Rightarrow> (string \<rightharpoonup> string list)) \<Rightarrow> (string \<Rightarrow> string)
     \<Rightarrow> (string \<Rightarrow> string option) \<Rightarrow> (string \<Rightarrow> page option) \<Rightarrow> string
     \<Rightarrow> bool \<times> (string \<times> string) list" where
  "test_shortcut_url urlparse parse_qs unquote head fetch date_str =
     (case fetch (BASE_URL_SHORTCUT @ date_str) of
        None \<Rightarrow> (False, [])
      | Some soup \<Rightarrow>
          (case page_links urlparse parse_qs unquote head soup of
             Inl e \<Rightarrow> (False, [])
           | Inr links \<Rightarrow>
               (let text = lower (page_text soup)
                in if list_ex (\<lambda>phrase. sublist phrase text) empty_markers then (True, [])
                   else (True, links))))"

text \<open>The file name \<open>main\<close> builds the target path from.\<close>

definition safe_filename :: "string \<Rightarrow> string" where
  "safe_filename filename =
     (let kept = filter (\<lambda>c. isalnum c \<or> c \<in> set ''._- '') filename
      in if suffix ''.pdf'' kept then kept else kept @ ''.pdf'')"

section \<open>Concrete environments\<close>

definition no_files :: world where
  "no_files = \<lparr>files = Map.empty, stdin = [], requests = [], received = 0, sleeps = []\<rparr>"

text \<open>
  Transports for concrete runs: a server that holds \<open>data\<close> and honours \<open>Range\<close> (206 with
  the rest of the data, 416 when the offset is not inside the data), one that answers 416
  to every ranged request and sends the whole data otherwise, one that is unreachable, one
  that fails with a different error from the third request on, and one that ignores \<open>Range\<close>
  and always sends the whole data.
\<close>

definition body_response :: "nat \<Rightarrow> string \<Rightarrow> response" where
  "body_response st body =
     \<lparr>status_code = st, content_length = Length (int (length body)), content_disposition = [],
      chunks = [body], stream_error = None\<rparr>"

definition range_server :: "string \<Rightarrow> transport" where
  "range_server data h =
     (case h of [] \<Rightarrow> Raises ''no request''
      | r # _ \<Rightarrow>
          (case req_range r of
             None \<Rightarrow> Responds (body_response 200 data)
           | Some k \<Rightarrow>
               if k < length data then Responds (body_response 206 (drop k data))
               else Responds (body_response 416 [])))"

definition rangeless_server :: "string \<Rightarrow> transport" where
  "rangeless_server data h =
     (case h of [] \<Rightarrow> Raises ''no request''
      | r # _ \<Rightarrow>
          (case req_range r of
             None \<Rightarrow> Responds (body_response 200 data)
           | Some k \<Rightarrow> Responds (body_response 416 [])))"

definition dead_server :: transport where
  "dead_server h = Raises ''connection refused''"

definition failing_server :: transport where
  "failing_server h = Raises (if length h < 3 then ''connection refused'' else ''timed out'')"

definition ignoring_server :: "string \<Rightarrow> transport" where
  "ignoring_server data h = Responds (body_response 200 data)"

definition named_server :: "string \<Rightarrow> string \<Rightarrow> transport" where
  "named_server disposition data h =
     Responds ((body_response 200 data)\<lparr>content_disposition := disposition\<rparr>)"

definition one_file :: "string \<Rightarrow> string \<Rightarrow> string list \<Rightarrow> world" where
  "one_file path content lines = no_files\<lparr>files := [path \<mapsto> content], stdin := lines\<rparr>"

definition fresh_tally :: tally where
  "fresh_tally = \<lparr>total_downloaded = 0, total_skipped = 0, total_failed = 0,
     failed_downloads = [], global_skip_all = False, global_overwrite_all = False\<rparr>"

definition sample_resource :: resource where
  "sample_resource = \<lparr>res_name = ''a.zip'', res_title = ''Candidatos'',
     res_url = ''https://cdn.tse.jus.br/a.zip'', res_format = ''ZIP'', res_size = None\<rparr>"

text \<open>
  The library on plain input, for the concrete runs: \<open>urlparse\<close> on a URL of the form
  \<open>scheme://host/path?query\<close> (no fragment, no parameters), \<open>parse_qs\<close> on a query of
  \<open>key=value\<close> pairs without escapes, \<open>urljoin\<close> of a base without path and a reference that
  starts with \<open>/\<close>, \<open>unquote\<close> on text without \<open>%\<close> (the identity), and a HEAD request whose
  answer has no \<open>Content-Disposition\<close>.  \<open>checked_urlparse\<close> adds the error of \<open>urlsplit\<close>
  for a host in which only one of \<open>[\<close> and \<open>]\<close> occurs (\<open>Invalid IPv6 URL\<close>).
\<close>

definition plain_urlparse :: "string \<Rightarrow> parsed_url" where
  "plain_urlparse u =
     (let front = takeWhile (\<lambda>c. c \<noteq> CHR ''?'') u;
          located = (if sublist ''://'' front
                     then dropWhile (\<lambda>c. c \<noteq> CHR ''/'') (drop 3 (dropWhile (\<lambda>c. c \<noteq> CHR '':'') front))
                     else front)
      in \<lparr>url_path = located, url_query = drop (length front + 1) u\<rparr>)"

definition plain_parse_qs :: "string \<Rightarrow> (string \<rightharpoonup> string list)" where
  "plain_parse_qs q k =
     (case map (\<lambda>pair. drop (length (takeWhile (\<lambda>c. c \<noteq> CHR ''='') pair) + 1) pair)
             (filter (\<lambda>pair. takeWhile (\<lambda>c. c \<noteq> CHR ''='') pair = k
                        \<and> drop (length (takeWhile (\<lambda>c. c \<noteq> CHR ''='') pair) + 1) pair \<noteq> [])
                (split_on CHR ''&'' q)) of
        [] \<Rightarrow> None
      | v # vs \<Rightarrow> Some (v # vs))"

definition plain_urljoin :: "string \<Rightarrow> string \<Rightarrow> string" where
  "plain_urljoin base ref = base @ ref"

definition checked_urlparse :: "string \<Rightarrow> parsed_url option" where
  "checked_urlparse u =
     (let front = takeWhile (\<lambda>c. c \<noteq> CHR ''?'') u;
          netloc = (if sublist ''://'' front
                    then takeWhile (\<lambda>c. c \<noteq> CHR ''/'') (drop 3 (dropWhile (\<lambda>c. c \<noteq> CHR '':'') front))
                    else [])
      in if (CHR ''['' \<in> set netloc) \<noteq> (CHR '']'' \<in> set netloc) then None
         else Some (plain_urlparse u))"

definition no_header :: "string \<Rightarrow> string option" where
  "no_header u = Some []"

text \<open>
  Pages for the concrete runs: a table row whose link says only \<open>Baixar\<close>, the same row
  with the file name in a sibling cell, a page that holds the first row under a notice that
  there are no publications, a page with the same notice whose only link has a malformed
  host, and a resource item whose link is relative.
\<close>

definition action_row :: "cell list" where
  "action_row = [\<lparr>cell_text = ''Baixar'', cell_link = Some (''baixar?id=3'', ''Baixar'')\<rparr>]"

definition edital_row :: "cell list" where
  "edital_row = [\<lparr>cell_text = ''Edital 045/2024.pdf'', cell_link = None\<rparr>,
                 \<lparr>cell_text = ''Baixar'', cell_link = Some (''baixar?id=3'', ''Baixar'')\<rparr>]"



definition relative_item :: res_item where
  "relative_item = \<lparr>item_heading = Some ''Candidatos 2022'',
     item_anchors = [\<lparr>a_string = Some ''Ir para recurso'', a_text = ''Ir para recurso'',
        a_href = Some ''/dataset/candidatos-2022/resource/consulta_cand_2022.zip''\<rparr>],
     item_strings = [''Candidatos 2022'', ''Ir para recurso'']\<rparr>"

section \<open>Properties\<close>

lemma answer_SA: "lower (strip ''SA '') = ''sa''"
  by code_simp

text \<open>
  C1, as stated: once the skip-all flag is set, every later call returns \<open>skip\<close> for any
  path.  It fails for a path that is not on disk: the existence test comes first, so the
  call returns \<open>overwrite\<close> (nothing is asked, the flag stays set).
\<close>

theorem skip_all_absent_path_counterexample:
  "handle_existing_file no_files ''dados-tse/2022/consulta_cand_2022.zip'' True False
     = (Inr (''overwrite'', True, False), no_files)"
  by (simp add: handle_existing_file_def exists_def no_files_def)

text \<open>
  C1, amended: when a call that started with both flags clear comes back with the skip-all
  flag set, it returned \<open>skip\<close> with the overwrite-all flag clear; and from then on, in any
  later environment and for any path, a call reads no input, changes nothing, keeps both
  flags, and returns \<open>skip\<close> when the path exists and \<open>overwrite\<close> when it does not.
\<close>

theorem skip_all_is_permanent:
  assumes "handle_existing_file w p False False = (Inr (a, s, ov), w')" and "s"
  shows "a = ''skip'' \<and> \<not> ov \<and>
    (\<forall>w2 q. handle_existing_file w2 q s ov =
       (Inr (if exists w2 q then ''skip'' else ''overwrite'', s, ov), w2))"
proof -
  have ask: "ask_choice ls = (Inr (a', s', o'), r) \<Longrightarrow> s' \<Longrightarrow> a' = ''skip'' \<and> \<not> o'"
    for ls a' s' o' r
    by (induction ls) (auto simp: Let_def split: if_splits)
  from assms have "a = ''skip'' \<and> \<not> ov"
    by (auto simp: handle_existing_file_def split: if_splits prod.splits dest: ask)
  with \<open>s\<close> show ?thesis
    by (simp add: handle_existing_file_def)
qed

theorem skip_all_is_permanent_witness:
  "handle_existing_file (no_files\<lparr>files := [''a.zip'' \<mapsto> ''xy''], stdin := [''SA '']\<rparr>)
      ''a.zip'' False False
     = (Inr (''skip'', True, False), no_files\<lparr>files := [''a.zip'' \<mapsto> ''xy'']\<rparr>)
   \<and> handle_existing_file (no_files\<lparr>files := [''b.zip'' \<mapsto> ''z'']\<rparr>) ''b.zip'' True False
     = (Inr (''skip'', True, False), no_files\<lparr>files := [''b.zip'' \<mapsto> ''z'']\<rparr>)"
proof -
  have run: "handle_existing_file (no_files\<lparr>files := [''a.zip'' \<mapsto> ''xy''], stdin := [''SA '']\<rparr>)
      ''a.zip'' False False
     = (Inr (''skip'', True, False), no_files\<lparr>files := [''a.zip'' \<mapsto> ''xy'']\<rparr>)"
    by (simp add: handle_existing_file_def exists_def no_files_def answer_SA)
  from skip_all_is_permanent [OF run] show ?thesis
    using run by (simp add: exists_def)
qed

subsection \<open>Resumable download (dados\_tse\_baixa.py)\<close>

lemma concat_nonempty: "concat (filter (\<lambda>c. c \<noteq> []) cs) = concat cs"
  by (induction cs) auto

text \<open>
  Whatever the server does, the first request of \<open>download_file\<close> carries \<open>Range\<close> from
  the current length of the target file when that file exists, and no \<open>Range\<close> otherwise;
  at most one request follows it.
\<close>

lemma receive_requests: "requests (snd (receive rh resp p w)) = requests w"
  by (simp add: receive_def write_chunks_def Let_def split: option.splits)

lemma first_request_offset:
  "\<exists>later. length later \<le> 1 \<and>
     requests (snd (download_file T url output_path w)) =
       later @ \<lparr>req_url = url,
          req_range = (if exists w output_path then Some (getsize w output_path) else None)\<rparr>
        # requests w"
proof -
  let ?r = "\<lparr>req_url = url,
          req_range = (if exists w output_path then Some (getsize w output_path) else None)\<rparr>"
  let ?w1 = "w\<lparr>requests := ?r # requests w\<rparr>"
  let ?r2 = "\<lparr>req_url = url, req_range = None\<rparr>"
  have "requests (snd (download_file T url output_path w)) = ?r # requests w
      \<or> requests (snd (download_file T url output_path w)) = ?r2 # ?r # requests w"
    by (cases "T (?r # requests w)"; cases "T (?r2 # ?r # requests w)")
       (simp_all add: download_file_def get_def Let_def receive_requests)
  then show ?thesis
  proof
    assume "requests (snd (download_file T url output_path w)) = ?r # requests w"
    then show ?thesis by (intro exI [of _ "[]"]) simp
  next
    assume "requests (snd (download_file T url output_path w)) = ?r2 # ?r # requests w"
    then show ?thesis by (intro exI [of _ "[?r2]"]) simp
  qed
qed

text \<open>
  C5: the target file exists, so the first request carries \<open>Range\<close>; the server answers it
  with 416 and answers the request without \<open>Range\<close> with a good response.  Then
  \<open>download_file\<close> sends exactly those two requests, the second from offset 0, succeeds, and
  the file holds the new body alone (mode \<open>wb\<close>: the old content is gone).
\<close>

theorem range_rejected_restarts_from_zero:
  assumes "files w output_path = Some old"
    and "T (\<lparr>req_url = url, req_range = Some (length old)\<rparr> # requests w) = Responds r1"
    and "status_code r1 = 416"
    and "T (\<lparr>req_url = url, req_range = None\<rparr>
            # \<lparr>req_url = url, req_range = Some (length old)\<rparr> # requests w) = Responds r2"
    and "\<not> is_error_status (status_code r2)"
    and "content_length r2 \<noteq> BadHeader"
    and "stream_error r2 = None"
  shows "download_file T url output_path w =
     ((True, None),
      w\<lparr>files := (files w)(output_path \<mapsto> concat (chunks r2)),
        requests := \<lparr>req_url = url, req_range = None\<rparr>
            # \<lparr>req_url = url, req_range = Some (length old)\<rparr> # requests w,
        received := received w + length (concat (chunks r2))\<rparr>)"
  using assms
  by (simp add: download_file_def get_def receive_def write_chunks_def exists_def getsize_def
      concat_nonempty Let_def)

theorem range_rejected_restarts_from_zero_witness:
  "download_file (rangeless_server ''xyz'') ''https://cdn.tse.jus.br/a.zip'' ''dados-tse/2022/a.zip''
      (one_file ''dados-tse/2022/a.zip'' ''ab'' []) =
     ((True, None),
      no_files\<lparr>files := [''dados-tse/2022/a.zip'' \<mapsto> ''xyz''],
        requests := [\<lparr>req_url = ''https://cdn.tse.jus.br/a.zip'', req_range = None\<rparr>,
                     \<lparr>req_url = ''https://cdn.tse.jus.br/a.zip'', req_range = Some 2\<rparr>],
        received := 3\<rparr>)"
  using range_rejected_restarts_from_zero [where w = "one_file ''dados-tse/2022/a.zip'' ''ab'' []"
      and output_path = "''dados-tse/2022/a.zip''" and old = "''ab''"
      and T = "rangeless_server ''xyz''" and url = "''https://cdn.tse.jus.br/a.zip''"
      and ?r1.0 = "body_response 416 []" and ?r2.0 = "body_response 200 ''xyz''"]
  by (simp add: one_file_def no_files_def rangeless_server_def body_response_def
      is_error_status_def)

subsection \<open>The requests of the download of diarios\_ceara\_scraper.py\<close>

text \<open>
  Every attempt of this \<open>download_file\<close> sends one GET without \<open>Range\<close> and never sleeps.
  A status other than \<open>failed\<close> is returned only after a request, and \<open>downloaded\<close> only
  after the whole body of a response was written from the first byte on.
\<close>

lemma try_download_requests:
  "try_download unquote T url fp w = (r, w') \<Longrightarrow>
     requests w' = \<lparr>req_url = url, req_range = None\<rparr> # requests w \<and> sleeps w' = sleeps w"
  by (auto simp: try_download_def get_def Let_def write_chunks_def should_overwrite_file_def
      split: reply.splits if_splits prod.splits sum.splits bool.splits option.splits)

lemma try_download_whole_body:
  assumes "try_download unquote T url fp w = (Inr ''downloaded'', w')"
  shows "\<exists>resp p. T (\<lparr>req_url = url, req_range = None\<rparr> # requests w) = Responds resp
           \<and> files w' p = Some (concat (chunks resp))"
proof (cases "T (\<lparr>req_url = url, req_range = None\<rparr> # requests w)")
  case (Raises e)
  with assms show ?thesis
    by (simp add: try_download_def get_def)
next
  case (Responds resp)
  let ?fp = "choose_filepath unquote fp (content_disposition resp)"
  from assms Responds have "files w' ?fp = Some (concat (chunks resp))"
    by (auto simp: try_download_def get_def Let_def write_chunks_def concat_nonempty
        split: if_splits prod.splits sum.splits bool.splits option.splits)
  with Responds show ?thesis
    by blast
qed

lemma try_download_status:
  "try_download unquote T url fp w = (Inr st, w') \<Longrightarrow> st = ''skipped'' \<or> st = ''downloaded''"
  by (auto simp: try_download_def get_def Let_def
      split: reply.splits if_splits prod.splits sum.splits bool.splits option.splits)

lemma attempts_doe_requests:
  assumes "attempts_doe unquote T url m fp as w = (res, w')"
  shows "\<exists>n \<le> length as.
       requests w' = replicate n \<lparr>req_url = url, req_range = None\<rparr> @ requests w
     \<and> sleeps w' = sleeps w
     \<and> (fst res \<longrightarrow> 1 \<le> n)
     \<and> (res = (True, ''downloaded'') \<longrightarrow>
          (\<exists>h resp p. T h = Responds resp \<and> files w' p = Some (concat (chunks resp))))"
  using assms
proof (induction as arbitrary: fp w)
  case Nil
  then show ?case by auto
next
  case (Cons a as)
  obtain r1 w1 where tried: "try_download unquote T url fp w = (r1, w1)"
    by (cases "try_download unquote T url fp w") auto
  from try_download_requests [OF tried]
  have one: "requests w1 = \<lparr>req_url = url, req_range = None\<rparr> # requests w" "sleeps w1 = sleeps w"
    by simp_all
  show ?case
  proof (cases r1)
    case (Inr st)
    with Cons.prems tried have res: "res = (True, st)" "w' = w1"
      by simp_all
    have "res = (True, ''downloaded'') \<longrightarrow>
          (\<exists>h resp p. T h = Responds resp \<and> files w' p = Some (concat (chunks resp)))"
      using try_download_whole_body [of unquote T url fp w w1] tried Inr res by auto
    with res one show ?thesis
      by (intro exI [of _ 1]) simp
  next
    case (Inl fp')
    show ?thesis
    proof (cases "a + 1 < m")
      case False
      with Cons.prems tried Inl have "res = (False, ''failed'')" "w' = w1"
        by simp_all
      with one show ?thesis
        by (intro exI [of _ 1]) simp
    next
      case True
      with Cons.prems tried Inl have "attempts_doe unquote T url m fp' as w1 = (res, w')"
        by simp
      from Cons.IH [OF this] obtain n where n: "n \<le> length as"
        "requests w' = replicate n \<lparr>req_url = url, req_range = None\<rparr> @ requests w1"
        "sleeps w' = sleeps w1"
        "res = (True, ''downloaded'') \<longrightarrow>
          (\<exists>h resp p. T h = Responds resp \<and> files w' p = Some (concat (chunks resp)))"
        by blast
      with one show ?thesis
        by (intro exI [of _ "Suc n"]) (simp add: replicate_app_Cons_same)
    qed
  qed
qed

lemma try_download_raises:
  "T (\<lparr>req_url = url, req_range = None\<rparr> # requests w) = Raises e \<Longrightarrow>
     try_download unquote T url fp w =
       (Inl fp, w\<lparr>requests := \<lparr>req_url = url, req_range = None\<rparr> # requests w\<rparr>)"
  by (simp add: try_download_def get_def)

lemma attempts_doe_all_raise:
  assumes "\<forall>h. \<exists>e. T h = Raises e" and "\<forall>a \<in> set as. a + 1 < m" and "\<not> l + 1 < m"
  shows "attempts_doe unquote T url m fp (as @ [l]) w =
    ((False, ''failed''),
     w\<lparr>requests := replicate (Suc (length as)) \<lparr>req_url = url, req_range = None\<rparr> @ requests w\<rparr>)"
  using assms(2)
proof (induction as arbitrary: w)
  case Nil
  from assms(1) obtain e where "T (\<lparr>req_url = url, req_range = None\<rparr> # requests w) = Raises e"
    by blast
  then have "try_download unquote T url fp w =
       (Inl fp, w\<lparr>requests := \<lparr>req_url = url, req_range = None\<rparr> # requests w\<rparr>)" for fp
    by (rule try_download_raises)
  with assms(3) show ?case
    by simp
next
  case (Cons a as)
  from assms(1) obtain e where "T (\<lparr>req_url = url, req_range = None\<rparr> # requests w) = Raises e"
    by blast
  then have "try_download unquote T url fp w =
       (Inl fp, w\<lparr>requests := \<lparr>req_url = url, req_range = None\<rparr> # requests w\<rparr>)" for fp
    by (rule try_download_raises)
  with Cons show ?case
    by (simp add: replicate_app_Cons_same)
qed

lemma download_file_doe_all_raise:
  assumes "\<forall>h. \<exists>e. T h = Raises e" and "0 < max_retries"
  shows "download_file_doe unquote T url fp max_retries w =
    ((False, ''failed''),
     w\<lparr>requests := replicate max_retries \<lparr>req_url = url, req_range = None\<rparr> @ requests w\<rparr>)"
proof -
  from assms(2) have split: "[0 ..< max_retries] = [0 ..< max_retries - 1] @ [max_retries - 1]"
    by (cases max_retries) simp_all
  have "attempts_doe unquote T url max_retries fp ([0 ..< max_retries - 1] @ [max_retries - 1]) w =
    ((False, ''failed''),
     w\<lparr>requests := replicate (Suc (length [0 ..< max_retries - 1]))
        \<lparr>req_url = url, req_range = None\<rparr> @ requests w\<rparr>)"
    by (rule attempts_doe_all_raise [OF assms(1)]) auto
  moreover from assms(2) have "Suc (length [0 ..< max_retries - 1]) = max_retries"
    by simp
  ultimately show ?thesis
    by (simp only: download_file_doe_def split [symmetric])
qed

lemma attempts_doe_status:
  "attempts_doe unquote T url m fp as w = (res, w') \<Longrightarrow> fst res \<or> res = (False, ''failed'')"
  by (induction as arbitrary: fp w) (auto split: prod.splits sum.splits if_splits)

subsection \<open>Resuming\<close>

text \<open>
  C2, as stated, fails in two ways.  \<open>download_file\<close> of diarios\_ceara\_scraper.py does
  not resume: with 2 of 5 bytes on disk and the user answering \<open>o\<close>, it sends one request
  without \<open>Range\<close> and reads all 5 bytes.  And \<open>download_file\<close> of dados\_tse\_baixa.py
  relies on the server answering the ranged request with the rest alone: when the server
  ignores \<open>Range\<close> and sends the whole data, the 5 bytes are appended to the 2 on disk.
\<close>

theorem download_does_not_always_resume_counterexample:
  "(let r = download_file_doe (\<lambda>s. s) (range_server ''abcde'')
              ''http://pesquisa.doe.seplag.ce.gov.br/doepesquisa/d.pdf''
              ''diarios_ceara/2024/d.pdf'' 3 (one_file ''diarios_ceara/2024/d.pdf'' ''ab'' [''o''])
    in fst r = (True, ''downloaded'')
     \<and> requests (snd r) = [\<lparr>req_url = ''http://pesquisa.doe.seplag.ce.gov.br/doepesquisa/d.pdf'',
                             req_range = None\<rparr>]
     \<and> received (snd r) = 5
     \<and> files (snd r) ''diarios_ceara/2024/d.pdf'' = Some ''abcde'')
   \<and> (let r = download_file (ignoring_server ''abcde'') ''https://cdn.tse.jus.br/a.zip''
              ''dados-tse/2022/a.zip'' (one_file ''dados-tse/2022/a.zip'' ''ab'' [])
    in fst r = (True, None)
     \<and> requests (snd r) = [\<lparr>req_url = ''https://cdn.tse.jus.br/a.zip'', req_range = Some 2\<rparr>]
     \<and> received (snd r) = 5
     \<and> files (snd r) ''dados-tse/2022/a.zip'' = Some ''ababcde'')"
  by code_simp

text \<open>
  C2, amended.  For \<open>download_file\<close> of dados\_tse\_baixa.py: with \<open>part\<close> on disk, shorter
  than the remote \<open>data\<close>, and a server that answers the request for the range from
  \<open>length part\<close> with the rest of the data, the function sends that one request, succeeds,
  appends, and leaves a file as long as \<open>data\<close>, having read only the missing bytes.  For
  \<open>download_file\<close> of diarios\_ceara\_scraper.py, on any server and any disk: it sends at
  most \<open>max_retries\<close> requests, none with \<open>Range\<close>, and when it returns \<open>downloaded\<close> a file
  holds exactly the whole body of a response.
\<close>

theorem resume_transfers_only_missing_bytes:
  assumes "files w output_path = Some part"
    and "length part < length data"
    and "T (\<lparr>req_url = url, req_range = Some (length part)\<rparr> # requests w) = Responds r"
    and "\<not> is_error_status (status_code r)"
    and "concat (chunks r) = drop (length part) data"
    and "content_length r \<noteq> BadHeader"
    and "stream_error r = None"
  shows "download_file T url output_path w =
     ((True, None),
      w\<lparr>files := (files w)(output_path \<mapsto> part @ drop (length part) data),
        requests := \<lparr>req_url = url, req_range = Some (length part)\<rparr> # requests w,
        received := received w + (length data - length part)\<rparr>)
     \<and> length (part @ drop (length part) data) = length data
     \<and> (\<exists>n \<le> max_retries.
          requests (snd (download_file_doe unquote T' url' filepath max_retries w')) =
            replicate n \<lparr>req_url = url', req_range = None\<rparr> @ requests w')
     \<and> (fst (download_file_doe unquote T' url' filepath max_retries w') = (True, ''downloaded'') \<longrightarrow>
          (\<exists>h resp p. T' h = Responds resp
             \<and> files (snd (download_file_doe unquote T' url' filepath max_retries w')) p
                 = Some (concat (chunks resp))))"
proof -
  from assms(4) have "status_code r \<noteq> 416"
    by (auto simp: is_error_status_def)
  with assms have tse: "download_file T url output_path w =
     ((True, None),
      w\<lparr>files := (files w)(output_path \<mapsto> part @ drop (length part) data),
        requests := \<lparr>req_url = url, req_range = Some (length part)\<rparr> # requests w,
        received := received w + (length data - length part)\<rparr>)
     \<and> length (part @ drop (length part) data) = length data"
    by (simp add: download_file_def get_def receive_def write_chunks_def exists_def getsize_def
        concat_nonempty Let_def)
  let ?run = "download_file_doe unquote T' url' filepath max_retries w'"
  have "attempts_doe unquote T' url' max_retries filepath [0 ..< max_retries] w' = (fst ?run, snd ?run)"
    by (simp add: download_file_doe_def)
  from attempts_doe_requests [OF this] obtain n where "n \<le> max_retries"
    and "requests (snd ?run) = replicate n \<lparr>req_url = url', req_range = None\<rparr> @ requests w'"
    and "fst ?run = (True, ''downloaded'') \<longrightarrow>
          (\<exists>h resp p. T' h = Responds resp \<and> files (snd ?run) p = Some (concat (chunks resp)))"
    by auto
  with tse show ?thesis
    by blast
qed

theorem resume_transfers_only_missing_bytes_witness:
  "download_file (range_server ''abcde'') ''https://cdn.tse.jus.br/a.zip'' ''dados-tse/2022/a.zip''
      (one_file ''dados-tse/2022/a.zip'' ''ab'' []) =
     ((True, None),
      no_files\<lparr>files := [''dados-tse/2022/a.zip'' \<mapsto> ''abcde''],
        requests := [\<lparr>req_url = ''https://cdn.tse.jus.br/a.zip'', req_range = Some 2\<rparr>],
        received := 3\<rparr>)
   \<and> fst (download_file_doe (\<lambda>s. s) (range_server ''abcde'')
         ''http://pesquisa.doe.seplag.ce.gov.br/doepesquisa/d.pdf'' ''diarios_ceara/2024/d.pdf'' 3
         (one_file ''diarios_ceara/2024/d.pdf'' ''ab'' [''o''])) = (True, ''downloaded'')
   \<and> (\<exists>h resp p. range_server ''abcde'' h = Responds resp
         \<and> files (snd (download_file_doe (\<lambda>s. s) (range_server ''abcde'')
               ''http://pesquisa.doe.seplag.ce.gov.br/doepesquisa/d.pdf'' ''diarios_ceara/2024/d.pdf'' 3
               (one_file ''diarios_ceara/2024/d.pdf'' ''ab'' [''o'']))) p = Some (concat (chunks resp)))"
proof -
  have finished: "fst (download_file_doe (\<lambda>s. s) (range_server ''abcde'')
         ''http://pesquisa.doe.seplag.ce.gov.br/doepesquisa/d.pdf'' ''diarios_ceara/2024/d.pdf'' 3
         (one_file ''diarios_ceara/2024/d.pdf'' ''ab'' [''o''])) = (True, ''downloaded'')"
    by code_simp
  have served: "range_server ''abcde'' (\<lparr>req_url = ''https://cdn.tse.jus.br/a.zip'',
        req_range = Some (length ''ab'')\<rparr> # requests (one_file ''dados-tse/2022/a.zip'' ''ab'' []))
      = Responds (body_response 206 ''cde'')"
    by (simp add: range_server_def)
  from resume_transfers_only_missing_bytes [where w = "one_file ''dados-tse/2022/a.zip'' ''ab'' []"
      and output_path = "''dados-tse/2022/a.zip''" and part = "''ab''" and data = "''abcde''"
      and T = "range_server ''abcde''" and url = "''https://cdn.tse.jus.br/a.zip''"
      and r = "body_response 206 ''cde''" and unquote = "\<lambda>s. s" and T' = "range_server ''abcde''"
      and url' = "''http://pesquisa.doe.seplag.ce.gov.br/doepesquisa/d.pdf''"
      and filepath = "''diarios_ceara/2024/d.pdf''" and max_retries = 3
      and w' = "one_file ''diarios_ceara/2024/d.pdf'' ''ab'' [''o'']", OF _ _ served]
    finished
  show ?thesis
    by (simp add: one_file_def no_files_def body_response_def is_error_status_def)
qed

subsection \<open>Retry and backoff\<close>

lemma unchanged_files:
  "exists (w\<lparr>sleeps := s\<rparr>) p = exists w p" "exists (w\<lparr>requests := r\<rparr>) p = exists w p"
  "getsize (w\<lparr>sleeps := s\<rparr>) p = getsize w p" "getsize (w\<lparr>requests := r\<rparr>) p = getsize w p"
  by (simp_all add: exists_def getsize_def)

lemma download_file_raises:
  assumes "T (\<lparr>req_url = url,
          req_range = (if exists w p then Some (getsize w p) else None)\<rparr> # requests w) = Raises e"
  shows "download_file T url p w =
    ((False, Some (RequestException e)),
     w\<lparr>requests := \<lparr>req_url = url,
          req_range = (if exists w p then Some (getsize w p) else None)\<rparr> # requests w\<rparr>)"
  using assms by (simp add: download_file_def get_def Let_def)

lemma attempts_last_fails:
  assumes "\<forall>h. \<exists>e. T h = Raises e" and "\<forall>a \<in> set as. a < m" and "\<not> l < m"
  shows "\<exists>e. T (replicate (Suc (length as)) \<lparr>req_url = res_url res,
              req_range = (if exists w p then Some (getsize w p) else None)\<rparr> @ requests w) = Raises e
    \<and> attempts T m year res p (as @ [l]) (t, w) =
    (t\<lparr>total_failed := total_failed t + 1,
       failed_downloads := failed_downloads t
          @ [(year, res_name res, res_url res, Some (RequestException e))]\<rparr>,
     w\<lparr>requests := replicate (Suc (length as)) \<lparr>req_url = res_url res,
          req_range = (if exists w p then Some (getsize w p) else None)\<rparr> @ requests w,
        sleeps := rev (map (\<lambda>a. 2 ^ a) (filter (\<lambda>a. 1 < a) (as @ [l]))) @ sleeps w\<rparr>)"
  using assms(2)
proof (induction as arbitrary: w)
  case Nil
  let ?w1 = "if 1 < l then w\<lparr>sleeps := 2 ^ l # sleeps w\<rparr> else w"
  let ?r = "\<lparr>req_url = res_url res,
              req_range = (if exists w p then Some (getsize w p) else None)\<rparr>"
  from assms(1) obtain e where e: "T (?r # requests w) = Raises e"
    by blast
  have step: "download_file T (res_url res) p ?w1 =
      ((False, Some (RequestException e)), ?w1\<lparr>requests := ?r # requests w\<rparr>)"
    using e download_file_raises [where T = T and url = "res_url res" and w = ?w1 and p = p and e = e]
    by (auto simp: unchanged_files split: if_splits)
  from step assms(3) e show ?case
    by (intro exI [of _ e]) simp
next
  case (Cons a as)
  let ?w1 = "if 1 < a then w\<lparr>sleeps := 2 ^ a # sleeps w\<rparr> else w"
  let ?r = "\<lparr>req_url = res_url res,
              req_range = (if exists w p then Some (getsize w p) else None)\<rparr>"
  let ?w2 = "?w1\<lparr>requests := ?r # requests w\<rparr>"
  from assms(1) obtain e1 where e1: "T (?r # requests w) = Raises e1"
    by blast
  have step: "download_file T (res_url res) p ?w1 = ((False, Some (RequestException e1)), ?w2)"
    using e1 download_file_raises [where T = T and url = "res_url res" and w = ?w1 and p = p and e = e1]
    by (auto simp: unchanged_files split: if_splits)
  from Cons.prems have smaller: "\<forall>a \<in> set as. a < m" and "a < m"
    by simp_all
  have same: "exists ?w2 p = exists w p" "getsize ?w2 p = getsize w p"
    "requests ?w2 = ?r # requests w" "sleeps ?w2 = sleeps ?w1"
    by (simp_all add: unchanged_files)
  from Cons.IH [OF smaller, of ?w2] obtain e where
    last: "T (replicate (Suc (length as)) ?r @ ?r # requests w) = Raises e"
    and rest: "attempts T m year res p (as @ [l]) (t, ?w2) =
      (t\<lparr>total_failed := total_failed t + 1,
         failed_downloads := failed_downloads t
            @ [(year, res_name res, res_url res, Some (RequestException e))]\<rparr>,
       ?w2\<lparr>requests := replicate (Suc (length as)) ?r @ ?r # requests w,
          sleeps := rev (map (\<lambda>a. 2 ^ a) (filter (\<lambda>a. 1 < a) (as @ [l]))) @ sleeps ?w1\<rparr>)"
    unfolding same by blast
  have shift: "replicate (Suc (length as)) ?r @ ?r # requests w
      = replicate (Suc (length (a # as))) ?r @ requests w"
    by (simp add: replicate_app_Cons_same)
  have "attempts T m year res p ((a # as) @ [l]) (t, w) = attempts T m year res p (as @ [l]) (t, ?w2)"
    using step \<open>a < m\<close> by (simp add: Let_def)
  also note rest
  also have "?w2\<lparr>requests := replicate (Suc (length as)) ?r @ ?r # requests w,
          sleeps := rev (map (\<lambda>a. 2 ^ a) (filter (\<lambda>a. 1 < a) (as @ [l]))) @ sleeps ?w1\<rparr>
     = w\<lparr>requests := replicate (Suc (length (a # as))) ?r @ requests w,
          sleeps := rev (map (\<lambda>a. 2 ^ a) (filter (\<lambda>a. 1 < a) ((a # as) @ [l]))) @ sleeps w\<rparr>"
    unfolding shift by simp
  finally have "attempts T m year res p ((a # as) @ [l]) (t, w) =
      (t\<lparr>total_failed := total_failed t + 1,
         failed_downloads := failed_downloads t
            @ [(year, res_name res, res_url res, Some (RequestException e))]\<rparr>,
       w\<lparr>requests := replicate (Suc (length (a # as))) ?r @ requests w,
          sleeps := rev (map (\<lambda>a. 2 ^ a) (filter (\<lambda>a. 1 < a) ((a # as) @ [l]))) @ sleeps w\<rparr>)" .
  with last [unfolded shift] show ?case
    by blast
qed

lemma retries_from_two: "0 < m \<Longrightarrow> filter (\<lambda>a. 1 < a) [1 ..< m + 1] = [2 ..< m + 1]"
  by (induction m) (auto simp: less_Suc_eq)

lemma backoff_increasing: "sorted_wrt (<) (map (\<lambda>a. (2::nat) ^ a) [2 ..< m + 1])"
proof -
  have "sorted_wrt (<) [2 ..< m + 1]"
    by (rule sorted_wrt_upt)
  then have "sorted_wrt (\<lambda>a b. (2::nat) ^ a < 2 ^ b) [2 ..< m + 1]"
    by (rule sorted_wrt_mono_rel [rotated]) simp
  then show ?thesis
    by (simp only: sorted_wrt_map)
qed

text \<open>
  C4, as stated, covers both retry loops.  The one inside \<open>download_file\<close> of
  diarios\_ceara\_scraper.py makes three attempts against an unreachable server and returns
  \<open>failed\<close>, but it never sleeps: there is no wait before a retry.
\<close>

theorem doe_retry_has_no_backoff_counterexample:
  "(let r = download_file_doe (\<lambda>s. s) dead_server
              ''http://pesquisa.doe.seplag.ce.gov.br/doepesquisa/d.pdf''
              ''diarios_ceara/2024/d.pdf'' 3 no_files
    in fst r = (False, ''failed'') \<and> length (requests (snd r)) = 3 \<and> sleeps (snd r) = [])"
  by code_simp

text \<open>
  C4, amended: let every request raise, whatever the error of each.  The retry loop of
  \<open>main\<close> in dados\_tse\_baixa.py with \<open>max_retries\<close> tries sends exactly \<open>max_retries\<close>
  requests, sleeps \<open>2 ^ attempt\<close> before each of the attempts 2 to \<open>max_retries\<close> (the log is
  newest first), a strictly increasing sequence, and counts and records one failure with the
  error of the last request.  \<open>download_file\<close> of diarios\_ceara\_scraper.py sends exactly
  \<open>max_retries\<close> requests and returns \<open>(False, 'failed')\<close>, and nothing else changes: it does
  not sleep.
\<close>

theorem retry_cap_and_backoff:
  assumes "\<forall>h. \<exists>e. T h = Raises e" and "0 < max_retries"
  shows "(\<exists>e. T (replicate max_retries \<lparr>req_url = res_url res,
              req_range = (if exists w p then Some (getsize w p) else None)\<rparr> @ requests w) = Raises e
      \<and> download_with_retry T max_retries year res p (t, w) =
        (t\<lparr>total_failed := total_failed t + 1,
           failed_downloads := failed_downloads t
              @ [(year, res_name res, res_url res, Some (RequestException e))]\<rparr>,
         w\<lparr>requests := replicate max_retries \<lparr>req_url = res_url res,
              req_range = (if exists w p then Some (getsize w p) else None)\<rparr> @ requests w,
            sleeps := rev (map (\<lambda>a. 2 ^ a) [2 ..< max_retries + 1]) @ sleeps w\<rparr>))
    \<and> sorted_wrt (<) (map (\<lambda>a. (2::nat) ^ a) [2 ..< max_retries + 1])
    \<and> download_file_doe unquote T url filepath max_retries w' =
        ((False, ''failed''),
         w'\<lparr>requests := replicate max_retries \<lparr>req_url = url, req_range = None\<rparr> @ requests w'\<rparr>)"
proof -
  let ?r = "\<lparr>req_url = res_url res,
              req_range = (if exists w p then Some (getsize w p) else None)\<rparr>"
  from assms(2) have split: "[1 ..< max_retries + 1] = [1 ..< max_retries] @ [max_retries]"
    by simp
  have count: "Suc (length [1 ..< max_retries]) = max_retries"
    using assms(2) by simp
  have waits: "filter (\<lambda>a. 1 < a) ([1 ..< max_retries] @ [max_retries]) = [2 ..< max_retries + 1]"
    using retries_from_two [OF assms(2)] split by simp
  have "\<exists>e. T (replicate (Suc (length [1 ..< max_retries])) ?r @ requests w) = Raises e
    \<and> attempts T max_retries year res p ([1 ..< max_retries] @ [max_retries]) (t, w) =
    (t\<lparr>total_failed := total_failed t + 1,
       failed_downloads := failed_downloads t
          @ [(year, res_name res, res_url res, Some (RequestException e))]\<rparr>,
     w\<lparr>requests := replicate (Suc (length [1 ..< max_retries])) ?r @ requests w,
        sleeps := rev (map (\<lambda>a. 2 ^ a) (filter (\<lambda>a. 1 < a) ([1 ..< max_retries] @ [max_retries])))
           @ sleeps w\<rparr>)"
    by (rule attempts_last_fails [OF assms(1)]) auto
  then have tse: "\<exists>e. T (replicate max_retries ?r @ requests w) = Raises e
      \<and> download_with_retry T max_retries year res p (t, w) =
        (t\<lparr>total_failed := total_failed t + 1,
           failed_downloads := failed_downloads t
              @ [(year, res_name res, res_url res, Some (RequestException e))]\<rparr>,
         w\<lparr>requests := replicate max_retries ?r @ requests w,
            sleeps := rev (map (\<lambda>a. 2 ^ a) [2 ..< max_retries + 1]) @ sleeps w\<rparr>)"
    unfolding count waits download_with_retry_def split .
  from tse backoff_increasing [of max_retries]
    download_file_doe_all_raise [OF assms, of unquote url filepath w']
  show ?thesis
    by (intro conjI)
qed

theorem retry_cap_and_backoff_witness:
  "download_with_retry failing_server 3 2022 sample_resource ''dados-tse/2022/a.zip''
      (fresh_tally, no_files) =
    (fresh_tally\<lparr>total_failed := 1,
       failed_downloads := [(2022, ''a.zip'', ''https://cdn.tse.jus.br/a.zip'',
          Some (RequestException ''timed out''))]\<rparr>,
     no_files\<lparr>requests := replicate 3 \<lparr>req_url = ''https://cdn.tse.jus.br/a.zip'', req_range = None\<rparr>,
        sleeps := [8, 4]\<rparr>)
   \<and> sorted_wrt (<) [4, 8 :: nat]
   \<and> download_file_doe (\<lambda>s. s) failing_server
        ''http://pesquisa.doe.seplag.ce.gov.br/doepesquisa/d.pdf'' ''diarios_ceara/2024/d.pdf'' 3 no_files
      = ((False, ''failed''),
         no_files\<lparr>requests := replicate 3
           \<lparr>req_url = ''http://pesquisa.doe.seplag.ce.gov.br/doepesquisa/d.pdf'', req_range = None\<rparr>\<rparr>)"
proof -
  have steps: "[2 ..< 3 + 1] = [2, 3 :: nat]"
    by code_simp
  have raising: "\<forall>h. \<exists>e. failing_server h = Raises e" and tries: "0 < (3::nat)"
    by (simp_all add: failing_server_def)
  have last: "failing_server (replicate 3 \<lparr>req_url = res_url sample_resource,
        req_range = (if exists no_files ''dados-tse/2022/a.zip''
                     then Some (getsize no_files ''dados-tse/2022/a.zip'') else None)\<rparr>
        @ requests no_files) = Raises ''timed out''"
    by (simp add: failing_server_def)
  from retry_cap_and_backoff [OF raising tries, of sample_resource no_files "''dados-tse/2022/a.zip''"
      2022 fresh_tally "\<lambda>s. s" "''http://pesquisa.doe.seplag.ce.gov.br/doepesquisa/d.pdf''"
      "''diarios_ceara/2024/d.pdf''" no_files] last
  show ?thesis
    unfolding steps
    by (auto simp: sample_resource_def fresh_tally_def no_files_def exists_def)
qed

subsection \<open>The policy comes before the request\<close>

lemma handle_existing_file_quiet:
  "handle_existing_file w p s ov = (r, w1) \<Longrightarrow>
     requests w1 = requests w \<and> files w1 = files w \<and> received w1 = received w"
  by (auto simp: handle_existing_file_def split: if_splits prod.splits)

text \<open>
  C3, as stated, covers both programs.  \<open>download_file\<close> of diarios\_ceara\_scraper.py sends
  its GET first and asks about the existing file afterwards (the prompt shows the size from
  the response): with the answer \<open>s\<close> it returns \<open>skipped\<close> after a request.
\<close>

theorem doe_skip_comes_after_request_counterexample:
  "(let r = download_file_doe (\<lambda>s. s) (range_server ''abcde'')
              ''http://pesquisa.doe.seplag.ce.gov.br/doepesquisa/d.pdf''
              ''diarios_ceara/2024/d.pdf'' 3 (one_file ''diarios_ceara/2024/d.pdf'' ''ab'' [''s''])
    in fst r = (True, ''skipped'')
     \<and> requests (snd r) = [\<lparr>req_url = ''http://pesquisa.doe.seplag.ce.gov.br/doepesquisa/d.pdf'',
                             req_range = None\<rparr>]
     \<and> files (snd r) ''diarios_ceara/2024/d.pdf'' = Some ''ab'')"
  by code_simp

text \<open>
  C3, amended.  In \<open>main\<close> of dados\_tse\_baixa.py \<open>handle_existing_file\<close> is called on the
  environment as the loop body finds it and sends nothing; when it answers \<open>skip\<close>, the
  resource is counted as skipped and, whatever the transport, no request is sent, nothing
  is read and no file changes.  In \<open>download_file\<close> of diarios\_ceara\_scraper.py the order is
  the other way round: whenever it returns the status \<open>skipped\<close>, it has sent at least one
  request before.
\<close>

theorem skip_makes_no_request:
  assumes "handle_existing_file w (path_join year_dir (res_name res))
             (global_skip_all t) (global_overwrite_all t) = (Inr (''skip'', s, ov), w1)"
  shows "process_resource T year_dir year res (t, w) =
           Inr (t\<lparr>global_skip_all := s, global_overwrite_all := ov,
                   total_skipped := total_skipped t + 1\<rparr>, w1)
         \<and> requests w1 = requests w \<and> received w1 = received w \<and> files w1 = files w
         \<and> (snd (fst (download_file_doe unquote T' url filepath max_retries w')) = ''skipped'' \<longrightarrow>
              (\<exists>n \<ge> 1. requests (snd (download_file_doe unquote T' url filepath max_retries w')) =
                 replicate n \<lparr>req_url = url, req_range = None\<rparr> @ requests w'))"
proof -
  let ?run = "download_file_doe unquote T' url filepath max_retries w'"
  have run: "attempts_doe unquote T' url max_retries filepath [0 ..< max_retries] w' = (fst ?run, snd ?run)"
    by (simp add: download_file_doe_def)
  have status: "fst (fst ?run) \<or> snd (fst ?run) = ''failed''"
    using attempts_doe_status [OF run] by auto
  from attempts_doe_requests [OF run] obtain n where
    "requests (snd ?run) = replicate n \<lparr>req_url = url, req_range = None\<rparr> @ requests w'"
    and "fst (fst ?run) \<longrightarrow> 1 \<le> n"
    by auto
  with status have "snd (fst ?run) = ''skipped'' \<longrightarrow>
      (\<exists>n \<ge> 1. requests (snd ?run) = replicate n \<lparr>req_url = url, req_range = None\<rparr> @ requests w')"
    by auto
  with assms handle_existing_file_quiet [OF assms] show ?thesis
    by (simp add: process_resource_def)
qed

lemma sample_path: "path_join ''dados-tse/2022'' ''a.zip'' = ''dados-tse/2022/a.zip''"
  by code_simp

lemma answer_s: "lower (strip ''s'') = ''s''"
  by code_simp

theorem skip_makes_no_request_witness:
  "process_resource (range_server ''abcde'') ''dados-tse/2022'' 2022 sample_resource
      (fresh_tally, one_file ''dados-tse/2022/a.zip'' ''ab'' [''s'']) =
     Inr (fresh_tally\<lparr>total_skipped := 1\<rparr>, one_file ''dados-tse/2022/a.zip'' ''ab'' [])
   \<and> requests (one_file ''dados-tse/2022/a.zip'' ''ab'' []) = []
   \<and> snd (fst (download_file_doe (\<lambda>s. s) (range_server ''abcde'')
        ''http://pesquisa.doe.seplag.ce.gov.br/doepesquisa/d.pdf'' ''diarios_ceara/2024/d.pdf'' 3
        (one_file ''diarios_ceara/2024/d.pdf'' ''ab'' [''s'']))) = ''skipped''
   \<and> (\<exists>n \<ge> 1. requests (snd (download_file_doe (\<lambda>s. s) (range_server ''abcde'')
        ''http://pesquisa.doe.seplag.ce.gov.br/doepesquisa/d.pdf'' ''diarios_ceara/2024/d.pdf'' 3
        (one_file ''diarios_ceara/2024/d.pdf'' ''ab'' [''s'']))) =
          replicate n \<lparr>req_url = ''http://pesquisa.doe.seplag.ce.gov.br/doepesquisa/d.pdf'',
             req_range = None\<rparr> @ requests (one_file ''diarios_ceara/2024/d.pdf'' ''ab'' [''s'']))"
proof -
  have asked: "handle_existing_file (one_file ''dados-tse/2022/a.zip'' ''ab'' [''s''])
      (path_join ''dados-tse/2022'' (res_name sample_resource))
      (global_skip_all fresh_tally) (global_overwrite_all fresh_tally) =
      (Inr (''skip'', False, False), one_file ''dados-tse/2022/a.zip'' ''ab'' [])"
    by (simp add: handle_existing_file_def exists_def one_file_def no_files_def
        sample_resource_def fresh_tally_def sample_path answer_s)
  have skipped: "snd (fst (download_file_doe (\<lambda>s. s) (range_server ''abcde'')
        ''http://pesquisa.doe.seplag.ce.gov.br/doepesquisa/d.pdf'' ''diarios_ceara/2024/d.pdf'' 3
        (one_file ''diarios_ceara/2024/d.pdf'' ''ab'' [''s'']))) = ''skipped''"
    by code_simp
  from skip_makes_no_request [OF asked, of "range_server ''abcde''" 2022 "\<lambda>s. s"
      "range_server ''abcde''" "''http://pesquisa.doe.seplag.ce.gov.br/doepesquisa/d.pdf''"
      "''diarios_ceara/2024/d.pdf''" 3 "one_file ''diarios_ceara/2024/d.pdf'' ''ab'' [''s'']"] skipped
  show ?thesis
    by (simp add: fresh_tally_def one_file_def no_files_def)
qed

subsection \<open>The blanket decision lasts for the run\<close>

text \<open>
  In support of C1: \<open>main\<close> hands the flags returned by one call to the next, and the
  downloads in between touch neither the flags nor the input.  So once skip-all is set, the
  loop over any list of resources runs to its end without asking anything, and the flag is
  still set afterwards.
\<close>

lemma download_file_stdin: "download_file T u p w = (r, w') \<Longrightarrow> stdin w' = stdin w"
  by (auto simp: download_file_def get_def receive_def write_chunks_def Let_def
      split: reply.splits if_splits option.splits prod.splits)

lemma attempts_flags:
  "attempts T m y res p as (t, w) = (t', w') \<Longrightarrow>
     global_skip_all t' = global_skip_all t \<and> global_overwrite_all t' = global_overwrite_all t
     \<and> stdin w' = stdin w"
proof (induction as arbitrary: t w)
  case Nil
  then show ?case by simp
next
  case (Cons a as)
  let ?w1 = "if 1 < a then w\<lparr>sleeps := 2 ^ a # sleeps w\<rparr> else w"
  obtain ok err w2 where dl: "download_file T (res_url res) p ?w1 = ((ok, err), w2)"
    by (cases "download_file T (res_url res) p ?w1") auto
  from download_file_stdin [OF dl] have in2: "stdin w2 = stdin w"
    by (simp split: if_splits)
  show ?case
  proof (cases ok)
    case True
    with Cons.prems dl in2 show ?thesis
      by (auto simp: Let_def)
  next
    case False
    show ?thesis
    proof (cases "a < m")
      case True
      with Cons.prems dl \<open>\<not> ok\<close> have "attempts T m y res p as (t, w2) = (t', w')"
        by (simp add: Let_def)
      from Cons.IH [OF this] in2 show ?thesis by simp
    next
      case False
      with Cons.prems dl \<open>\<not> ok\<close> have "attempts T m y res p as
          (t\<lparr>total_failed := total_failed t + 1,
             failed_downloads := failed_downloads t @ [(y, res_name res, res_url res, err)]\<rparr>, w2)
          = (t', w')"
        by (simp add: Let_def)
      from Cons.IH [OF this] in2 show ?thesis by simp
    qed
  qed
qed

lemma process_resource_under_skip_all:
  assumes "global_skip_all t"
  shows "\<exists>t' w'. process_resource T year_dir year res (t, w) = Inr (t', w')
           \<and> global_skip_all t' \<and> stdin w' = stdin w"
proof (cases "exists w (path_join year_dir (res_name res))")
  case True
  with assms show ?thesis
    by (simp add: process_resource_def handle_existing_file_def)
next
  case False
  obtain t' w' where run: "download_with_retry T 3 year res (path_join year_dir (res_name res))
      (t\<lparr>global_skip_all := global_skip_all t, global_overwrite_all := global_overwrite_all t\<rparr>, w)
      = (t', w')"
    by (cases "download_with_retry T 3 year res (path_join year_dir (res_name res))
      (t\<lparr>global_skip_all := global_skip_all t, global_overwrite_all := global_overwrite_all t\<rparr>, w)") auto
  from attempts_flags [OF run [unfolded download_with_retry_def]] assms
  have "global_skip_all t' \<and> stdin w' = stdin w"
    by simp
  with False run show ?thesis
    by (simp add: process_resource_def handle_existing_file_def)
qed

lemma skip_all_lasts_for_the_run:
  assumes "global_skip_all t"
  shows "\<exists>t' w'. process_resources T year_dir year rs (t, w) = Inr (t', w')
           \<and> global_skip_all t' \<and> stdin w' = stdin w"
  using assms
proof (induction rs arbitrary: t w)
  case Nil
  then show ?case by simp
next
  case (Cons res rs)
  from process_resource_under_skip_all [OF Cons.prems, of T year_dir year res w]
  obtain t1 w1 where step: "process_resource T year_dir year res (t, w) = Inr (t1, w1)"
    and kept: "global_skip_all t1" "stdin w1 = stdin w"
    by blast
  from Cons.IH [OF kept(1), of w1] kept(2) step show ?case
    by auto
qed

subsection \<open>The path written by the download of diarios\_ceara\_scraper.py\<close>

lemma choose_filepath_cases:
  "choose_filepath unquote fp cd = fp \<or>
   (lower (basename fp) \<in> set generic_names \<and>
    (\<exists>n. header_filename unquote cd = Some n \<and> suffix ''.pdf'' (lower n)))"
  by (auto simp: choose_filepath_def Let_def split: option.splits)

lemma write_chunks_frame:
  "write_chunks a resp fp w = (r, w') \<Longrightarrow> files w' = (files w)(fp := files w' fp)"
  by (auto simp: write_chunks_def Let_def split: option.splits if_splits)

lemma should_overwrite_file_files:
  "should_overwrite_file w fp = (r, w') \<Longrightarrow> files w' = files w"
  by (auto simp: should_overwrite_file_def split: if_splits prod.splits)

lemma try_download_frame:
  assumes "try_download unquote T url fp w = (r, w')"
  shows "\<exists>fp'. (fp' = fp \<or> (lower (basename fp) \<in> set generic_names \<and>
            (\<exists>h resp n. T h = Responds resp
               \<and> header_filename unquote (content_disposition resp) = Some n
               \<and> suffix ''.pdf'' (lower n))))
          \<and> (\<forall>fp''. r = Inl fp'' \<longrightarrow> fp'' = fp')
          \<and> (\<forall>p. files w' p \<noteq> files w p \<longrightarrow> p = fp')"
proof (cases "T (\<lparr>req_url = url, req_range = None\<rparr> # requests w)")
  case (Raises e)
  with assms show ?thesis
    by (auto simp: try_download_def get_def)
next
  case (Responds resp)
  let ?fp = "choose_filepath unquote fp (content_disposition resp)"
  let ?w1 = "w\<lparr>requests := \<lparr>req_url = url, req_range = None\<rparr> # requests w\<rparr>"
  have a: "?fp = fp \<or> (lower (basename fp) \<in> set generic_names \<and>
            (\<exists>h resp n. T h = Responds resp
               \<and> header_filename unquote (content_disposition resp) = Some n
               \<and> suffix ''.pdf'' (lower n)))"
    using choose_filepath_cases [of unquote fp "content_disposition resp"] Responds by blast
  show ?thesis
  proof (cases "is_error_status (status_code resp) \<or> content_length resp = BadHeader")
    case True
    with assms Responds have "(r = Inl fp \<or> r = Inl ?fp) \<and> files w' = files w"
      by (auto simp: try_download_def get_def Let_def split: if_splits)
    moreover from True assms Responds have "is_error_status (status_code resp) \<Longrightarrow> r = Inl fp"
      by (auto simp: try_download_def get_def Let_def split: if_splits)
    moreover from True assms Responds have "\<not> is_error_status (status_code resp) \<Longrightarrow> r = Inl ?fp"
      by (auto simp: try_download_def get_def Let_def split: if_splits)
    ultimately show ?thesis using a
      by (cases "is_error_status (status_code resp)") auto
  next
    case False
    obtain a2 w2 where ask: "(if exists ?w1 ?fp then should_overwrite_file ?w1 ?fp
                        else (Inr True, ?w1)) = (a2, w2)"
      by (cases "(if exists ?w1 ?fp then should_overwrite_file ?w1 ?fp else (Inr True, ?w1))") auto
    then have f2: "files w2 = files w"
      by (auto split: if_splits dest: should_overwrite_file_files)
    obtain x w3 where wr: "write_chunks False resp ?fp w2 = (x, w3)"
      by (cases "write_chunks False resp ?fp w2") auto
    from write_chunks_frame [OF wr] f2 have f3: "\<forall>p. files w3 p \<noteq> files w p \<longrightarrow> p = ?fp"
      by (metis fun_upd_other)
    from assms Responds False ask wr
    have "(w' = w2 \<or> w' = w3) \<and> (\<forall>fp''. r = Inl fp'' \<longrightarrow> fp'' = ?fp)"
      by (auto simp: try_download_def get_def Let_def
          split: sum.splits bool.splits option.splits)
    with f2 f3 have b: "(\<forall>fp''. r = Inl fp'' \<longrightarrow> fp'' = ?fp) \<and> (\<forall>p. files w' p \<noteq> files w p \<longrightarrow> p = ?fp)"
      by auto
    with a show ?thesis by blast
  qed
qed

lemma attempts_doe_frame:
  assumes "attempts_doe unquote T url m fp as w = (r, w')"
    and "fp = fp0 \<or> G"
    and "G \<longleftrightarrow> lower (basename fp0) \<in> set generic_names \<and>
            (\<exists>h resp n. T h = Responds resp
               \<and> header_filename unquote (content_disposition resp) = Some n
               \<and> suffix ''.pdf'' (lower n))"
    and "files w' p \<noteq> files w p"
  shows "p = fp0 \<or> G"
  using assms(1,2,4)
proof (induction as arbitrary: fp w)
  case Nil
  then show ?case by simp
next
  case (Cons a as)
  obtain r1 w1 where tried: "try_download unquote T url fp w = (r1, w1)"
    by (cases "try_download unquote T url fp w") auto
  from try_download_frame [OF tried] obtain fp' where
    fp': "fp' = fp \<or> (lower (basename fp) \<in> set generic_names \<and>
            (\<exists>h resp n. T h = Responds resp
               \<and> header_filename unquote (content_disposition resp) = Some n
               \<and> suffix ''.pdf'' (lower n)))"
    and next_fp: "\<forall>fp''. r1 = Inl fp'' \<longrightarrow> fp'' = fp'"
    and changed: "\<forall>p. files w1 p \<noteq> files w p \<longrightarrow> p = fp'"
    by blast
  from fp' Cons.prems(2) assms(3) have inv: "fp' = fp0 \<or> G"
    by auto
  show ?case
  proof (cases "files w1 p = files w p")
    case False
    with changed inv show ?thesis by auto
  next
    case True
    with Cons.prems(3) have diff: "files w' p \<noteq> files w1 p" by simp
    show ?thesis
    proof (cases r1)
      case (Inr status)
      with Cons.prems(1) tried diff show ?thesis by simp
    next
      case (Inl fp'')
      with next_fp have "fp'' = fp'" by simp
      with Inl Cons.prems(1) tried diff inv Cons.IH [of fp' w1] show ?thesis
        by (auto split: if_splits)
    qed
  qed
qed

text \<open>
  C10, as stated, compares names exactly.  The code compares in lower case: asked to write
  \<open>Baixar.pdf\<close>, which is not one of the four generic names, and given a header naming
  \<open>DOE20240105.PDF\<close>, which does not end in \<open>.pdf\<close>, it writes \<open>DOE20240105.PDF\<close> instead.
  (In the concrete runs \<open>unquote\<close> is the identity, as it is on text without \<open>%\<close>.)
\<close>

theorem generic_name_case_counterexample:
  "(let r = download_file_doe (\<lambda>s. s)
              (named_server (''attachment; filename='' @ [CHR 0x22] @ ''DOE20240105.PDF'' @ [CHR 0x22])
                 ''abc'')
              ''http://pesquisa.doe.seplag.ce.gov.br/doepesquisa/baixar?id=3''
              ''diarios_ceara/2024/Baixar.pdf'' 3 no_files
    in fst r = (True, ''downloaded'')
     \<and> files (snd r) ''diarios_ceara/2024/DOE20240105.PDF'' = Some ''abc''
     \<and> files (snd r) ''diarios_ceara/2024/Baixar.pdf'' = None
     \<and> basename ''diarios_ceara/2024/Baixar.pdf'' \<notin> set generic_names
     \<and> \<not> suffix ''.pdf'' ''DOE20240105.PDF'')"
  by code_simp

text \<open>
  C10, amended: whatever the transport, the input and the number of attempts, a file that
  \<open>download_file\<close> creates or changes is the requested path itself, unless the requested
  basename in lower case is one of the four generic names and some response carried a
  \<open>Content-Disposition\<close> file name that ends in \<open>.pdf\<close> in lower case.  So a request whose
  lower-cased basename is not generic only ever writes the requested path.
\<close>

theorem only_generic_names_are_replaced:
  assumes "download_file_doe unquote T url filepath max_retries w = (r, w')"
    and "files w' p \<noteq> files w p"
  shows "p = filepath \<or>
     (lower (basename filepath) \<in> set generic_names \<and>
      (\<exists>h resp n. T h = Responds resp
          \<and> header_filename unquote (content_disposition resp) = Some n
          \<and> suffix ''.pdf'' (lower n)))"
  using attempts_doe_frame [OF assms(1) [unfolded download_file_doe_def] _ refl assms(2)]
  by blast

theorem only_generic_names_are_replaced_witness:
  "files (snd (download_file_doe (\<lambda>s. s)
       (named_server (''attachment; filename='' @ [CHR 0x22] @ ''DOE20240105.pdf'' @ [CHR 0x22]) ''abc'')
       ''http://pesquisa.doe.seplag.ce.gov.br/doepesquisa/baixar?id=3''
       ''diarios_ceara/2024/baixar.pdf'' 3 no_files)) ''diarios_ceara/2024/DOE20240105.pdf''
     \<noteq> files no_files ''diarios_ceara/2024/DOE20240105.pdf''
   \<and> (''diarios_ceara/2024/DOE20240105.pdf'' = ''diarios_ceara/2024/baixar.pdf'' \<or>
     (lower (basename ''diarios_ceara/2024/baixar.pdf'') \<in> set generic_names \<and>
      (\<exists>h resp n. named_server (''attachment; filename='' @ [CHR 0x22] @ ''DOE20240105.pdf''
             @ [CHR 0x22]) ''abc'' h = Responds resp
          \<and> header_filename (\<lambda>s. s) (content_disposition resp) = Some n
          \<and> suffix ''.pdf'' (lower n))))"
proof -
  let ?T = "named_server (''attachment; filename='' @ [CHR 0x22] @ ''DOE20240105.pdf'' @ [CHR 0x22])
              ''abc''"
  let ?run = "download_file_doe (\<lambda>s. s) ?T
       ''http://pesquisa.doe.seplag.ce.gov.br/doepesquisa/baixar?id=3''
       ''diarios_ceara/2024/baixar.pdf'' 3 no_files"
  have run: "?run = (fst ?run, snd ?run)"
    by simp
  have changed: "files (snd ?run) ''diarios_ceara/2024/DOE20240105.pdf''
      \<noteq> files no_files ''diarios_ceara/2024/DOE20240105.pdf''"
    by code_simp
  from only_generic_names_are_replaced [OF run changed] changed show ?thesis
    by blast
qed

subsection \<open>The format of a resource (dados\_tse\_baixa.py)\<close>













subsection \<open>Pages without publications (diarios\_ceara\_scraper.py)\<close>
















subsection \<open>The file name of a link (diarios\_ceara\_scraper.py)\<close>

lemma pdf_chars: "\<forall>c \<in> set ''.pdf''. isalnum c \<or> c \<in> set ''._- ''"
  by code_simp

lemma safe_filename_ok:
  "safe_filename f \<noteq> [] \<and> suffix ''.pdf'' (safe_filename f)
     \<and> (\<forall>c \<in> set (safe_filename f). isalnum c \<or> c \<in> set ''._- '')"
proof -
  define P where "P = (\<lambda>c. isalnum c \<or> c \<in> set ''._- '')"
  have sf: "safe_filename f =
      (if suffix ''.pdf'' (filter P f) then filter P f else filter P f @ ''.pdf'')"
    unfolding safe_filename_def P_def Let_def ..
  have pdf: "\<forall>c \<in> set ''.pdf''. P c"
    unfolding P_def by (rule pdf_chars)
  have "safe_filename f \<noteq> [] \<and> suffix ''.pdf'' (safe_filename f)
     \<and> (\<forall>c \<in> set (safe_filename f). P c)"
  proof (cases "suffix ''.pdf'' (filter P f)")
    case True
    then have "filter P f \<noteq> []"
      by (cases "filter P f") simp_all
    with True sf show ?thesis
      by simp
  next
    case False
    with sf have eq: "safe_filename f = filter P f @ ''.pdf''"
      by (simp only: if_False)
    have nonempty: "safe_filename f \<noteq> []"
      unfolding eq by simp
    have "suffix ''.pdf'' (filter P f @ ''.pdf'')"
      by (rule suffixI) (rule refl)
    then have ends: "suffix ''.pdf'' (safe_filename f)"
      unfolding eq .
    have "\<forall>c \<in> set (filter P f @ ''.pdf''). P c"
      using pdf unfolding set_append by (simp only: ball_Un) simp
    then have chars: "\<forall>c \<in> set (safe_filename f). P c"
      unfolding eq .
    from nonempty ends chars show ?thesis
      by (intro conjI)
  qed
  then show ?thesis
    unfolding P_def .
qed

text \<open>
  C7, as stated, fails twice.  A row whose only text is the link \<open>Baixar\<close> to \<open>baixar?id=3\<close>
  (no name in the query, the path, the cells or the headers) ends with the bare action word
  \<open>baixar.pdf\<close>.  And in the example of the claim the sibling text is chosen, but the name
  that \<open>main\<close> uses is the sanitised \<open>Edital 0452024.pdf\<close>: the \<open>/\<close> is not an allowed
  character.
\<close>

theorem action_word_filename_counterexample:
  "row_links checked_urlparse plain_parse_qs (\<lambda>s. s) no_header action_row =
     Inr [(''baixar.pdf'', ''http://pesquisa.doe.seplag.ce.gov.br/doepesquisa/baixar?id=3'')]
   \<and> safe_filename ''baixar.pdf'' = ''baixar.pdf''
   \<and> row_links checked_urlparse plain_parse_qs (\<lambda>s. s) no_header edital_row =
     Inr [(''Edital 045/2024.pdf'', ''http://pesquisa.doe.seplag.ce.gov.br/doepesquisa/baixar?id=3'')]
   \<and> safe_filename ''Edital 045/2024.pdf'' \<noteq> ''Edital 045/2024.pdf''"
  by code_simp

lemma edital_names:
  "row_links checked_urlparse plain_parse_qs (\<lambda>s. s) no_header edital_row =
     Inr [(''Edital 045/2024.pdf'', ''http://pesquisa.doe.seplag.ce.gov.br/doepesquisa/baixar?id=3'')]
   \<and> safe_filename ''Edital 045/2024.pdf'' = ''Edital 0452024.pdf''"
  by code_simp

text \<open>
  C7, amended: whatever name the four methods return, the file name that \<open>main\<close> builds from
  it is not empty, ends in \<open>.pdf\<close> (appended if missing) and holds only alphanumerics, space,
  \<open>.\<close>, \<open>_\<close> and \<open>-\<close>.  In the example the methods return the sibling text
  \<open>Edital 045/2024.pdf\<close>, which becomes \<open>Edital 0452024.pdf\<close>.
\<close>

theorem safe_filename_postcondition:
  "(safe_filename f \<noteq> [] \<and> suffix ''.pdf'' (safe_filename f)
      \<and> (\<forall>c \<in> set (safe_filename f). isalnum c \<or> c \<in> set ''._- ''))
   \<and> row_links checked_urlparse plain_parse_qs (\<lambda>s. s) no_header edital_row =
       Inr [(''Edital 045/2024.pdf'', ''http://pesquisa.doe.seplag.ce.gov.br/doepesquisa/baixar?id=3'')]
   \<and> safe_filename ''Edital 045/2024.pdf'' = ''Edital 0452024.pdf''"
  using safe_filename_ok [of f] edital_names by (intro conjI) blast+

theorem safe_filename_postcondition_witness:
  "safe_filename ''relat'' \<noteq> [] \<and> suffix ''.pdf'' (safe_filename ''relat'')
     \<and> list_all (\<lambda>c. isalnum c \<or> c \<in> set ''._- '') (safe_filename ''relat'')
     \<and> safe_filename ''relat'' = ''relat.pdf''"
proof -
  have "safe_filename ''relat'' = ''relat.pdf''"
    by code_simp
  with safe_filename_postcondition [of "''relat''"] show ?thesis
    unfolding list_all_iff by blast
qed

subsection \<open>The URL of a link\<close>

text \<open>Every URL that \<open>test_shortcut_url\<close> returns was made absolute.\<close>

lemma full_url_http: "prefix ''http'' (full_url href)"
  by (auto simp: full_url_def DOE_HOST_def prefix_def)

lemma gather_member:
  "gather f xs = Inr ys \<Longrightarrow> y \<in> set ys \<Longrightarrow> \<exists>x \<in> set xs. \<exists>zs. f x = Inr zs \<and> y \<in> set zs"
proof (induction xs arbitrary: ys)
  case Nil
  then show ?case
    by simp
next
  case (Cons x xs)
  from Cons.prems(1) obtain zs rest where parts: "f x = Inr zs" "gather f xs = Inr rest" "ys = zs @ rest"
    by (auto split: sum.splits)
  with Cons.prems(2) have "y \<in> set zs \<or> y \<in> set rest"
    by simp
  then show ?case
  proof
    assume "y \<in> set zs"
    with parts(1) show ?thesis
      by auto
  next
    assume "y \<in> set rest"
    from Cons.IH [OF parts(2) this] show ?thesis
      by auto
  qed
qed

lemma cell_links_absolute:
  "cell_links urlparse parse_qs unquote head cells c = Inr ls \<Longrightarrow> (n, v) \<in> set ls \<Longrightarrow>
     \<exists>href. v = full_url href"
  by (auto simp: cell_links_def split: option.splits prod.splits if_splits sum.splits)

lemma direct_link_absolute:
  "direct_link urlparse parse_qs unquote href = Inr ls \<Longrightarrow> (n, v) \<in> set ls \<Longrightarrow> v = full_url href"
  by (auto simp: direct_link_def Let_def split: sum.splits)

lemma page_links_absolute:
  assumes "page_links urlparse parse_qs unquote head soup = Inr ls" and "(n, v) \<in> set ls"
  shows "\<exists>href. v = full_url href"
proof (cases "gather (gather (row_links urlparse parse_qs unquote head)) (tables soup)")
  case (Inl e)
  with assms(1) show ?thesis
    by (simp add: page_links_def)
next
  case (Inr table_links)
  show ?thesis
  proof (cases "table_links = []")
    case True
    with Inr assms(1) have "gather (direct_link urlparse parse_qs unquote)
        (filter (\<lambda>href. suffix ''.pdf'' (lower href)) (all_links soup)) = Inr ls"
      by (simp add: page_links_def)
    from gather_member [OF this assms(2)] direct_link_absolute show ?thesis
      by blast
  next
    case False
    with Inr assms(1) have "gather (gather (row_links urlparse parse_qs unquote head)) (tables soup) = Inr ls"
      by (simp add: page_links_def)
    from gather_member [OF this assms(2)] obtain rows rs where
      "gather (row_links urlparse parse_qs unquote head) rows = Inr rs" "(n, v) \<in> set rs"
      by blast
    from gather_member [OF this] obtain cells cs where
      "row_links urlparse parse_qs unquote head cells = Inr cs" "(n, v) \<in> set cs"
      by blast
    then have "gather (cell_links urlparse parse_qs unquote head cells) cells = Inr cs" "(n, v) \<in> set cs"
      by (simp_all add: row_links_def)
    from gather_member [OF this] cell_links_absolute show ?thesis
      by blast
  qed
qed

lemma test_shortcut_url_absolute:
  assumes "(filename, u) \<in> set (snd (test_shortcut_url urlparse parse_qs unquote head fetch date_str))"
  shows "prefix ''http'' u"
proof -
  from assms obtain soup ls where
    "page_links urlparse parse_qs unquote head soup = Inr ls" "(filename, u) \<in> set ls"
    by (auto simp: test_shortcut_url_def Let_def split: option.splits sum.splits if_splits)
  from page_links_absolute [OF this] full_url_http show ?thesis
    by auto
qed

text \<open>
  C6 at a year page of dados\_tse\_baixa.py with one resource item whose \<open>Ir para recurso\<close>
  link is relative and ends in a known extension: the link is taken as a direct download,
  so it is never joined with the base URL, and the resource leaves
  \<open>get_resources_from_year\<close> with the relative \<open>url\<close>.
\<close>

theorem relative_href_is_kept:
  "get_resources_from_year plain_urlparse plain_urljoin
      (\<lambda>u. Some \<lparr>has_dados_section = True, resource_items = [relative_item]\<rparr>) (\<lambda>u. None)
      ''https://dadosabertos.tse.jus.br/dataset/candidatos-2022'' =
     [\<lparr>res_name = ''consulta_cand_2022.zip'', res_title = ''Candidatos 2022'',
       res_url = ''/dataset/candidatos-2022/resource/consulta_cand_2022.zip'',
       res_format = ''ZIP'', res_size = None\<rparr>]
   \<and> \<not> prefix ''http'' ''/dataset/candidatos-2022/resource/consulta_cand_2022.zip''"
  by code_simp

end
